theory Spec2Isabelle
  imports Main "HOL-Library.Sublist" "HOL-Library.AList"
begin

section \<open>JavaScript values held by the StorySky backend\<close>

text \<open>
  Both servers (the in-memory \<^verbatim>\<open>src/server.js\<close> and the file-backed
  \<^verbatim>\<open>src/unnamed/part_000\<close>) store whatever \<^verbatim>\<open>express.json()\<close> parsed from the
  request body, so a field of a story, user or comment is a JSON value, not necessarily
  a string.  A field that is absent from a request body (\<^verbatim>\<open>undefined\<close>) is \<open>None\<close>
  of type \<open>json option\<close>.

  A finite number is modelled as an unbounded integer: the counters the specification
  talks about.  Fractions, \<^verbatim>\<open>-0\<close> and the rounding of doubles are not modelled.
  \<open>JInf True\<close> and \<open>JInf False\<close> are \<^verbatim>\<open>Infinity\<close> and \<^verbatim>\<open>-Infinity\<close>, which
  \<^verbatim>\<open>JSON.parse\<close> returns for a number literal beyond the range of a double (such as
  \<^verbatim>\<open>1e999\<close>) and which \<^verbatim>\<open>JSON.stringify\<close> writes as \<^verbatim>\<open>null\<close>.
  An object is the list of its own properties in insertion order.
\<close>

datatype json =
    JNull
  | JBool bool
  | JNum int
  | JInf bool
  | JStr string
  | JArr "json list"
  | JObj "(string \<times> json) list"

text \<open>Truthiness, as \<^verbatim>\<open>!x\<close> and \<^verbatim>\<open>x || y\<close> read it.\<close>

fun truthy :: "json \<Rightarrow> bool" where
  "truthy JNull = False"
| "truthy (JBool b) = b"
| "truthy (JNum n) = (n \<noteq> 0)"
| "truthy (JInf b) = True"
| "truthy (JStr s) = (s \<noteq> [])"
| "truthy (JArr xs) = True"
| "truthy (JObj kvs) = True"

text \<open>\<^verbatim>\<open>!x\<close> on a field of the request body: an absent field is falsy.\<close>

fun present :: "json option \<Rightarrow> bool" where
  "present None = False"
| "present (Some v) = truthy v"

text \<open>\<^verbatim>\<open>x || ""\<close> on a field of the request body.\<close>

fun or_empty :: "json option \<Rightarrow> json" where
  "or_empty None = JStr []"
| "or_empty (Some v) = (if truthy v then v else JStr [])"

text \<open>
  Strict equality \<^verbatim>\<open>===\<close> between two stored values.  Primitives compare by value.
  An array or an object is only \<^verbatim>\<open>===\<close> to itself; every array or object in the store
  was created by its own \<^verbatim>\<open>JSON.parse\<close>, so two of them read from two different
  entities are never the same reference.
\<close>

fun strict_eq :: "json \<Rightarrow> json \<Rightarrow> bool" where
  "strict_eq JNull JNull = True"
| "strict_eq (JBool a) (JBool b) = (a = b)"
| "strict_eq (JNum a) (JNum b) = (a = b)"
| "strict_eq (JInf a) (JInf b) = (a = b)"
| "strict_eq (JStr a) (JStr b) = (a = b)"
| "strict_eq _ _ = False"

text \<open>\<^verbatim>\<open>x === s\<close> where \<open>s\<close> is a string (a route parameter or a generated id).\<close>

fun eq_str :: "json option \<Rightarrow> string \<Rightarrow> bool" where
  "eq_str (Some (JStr a)) s = (a = s)"
| "eq_str _ s = False"

subsection \<open>Conversion to string\<close>

definition digit :: "nat \<Rightarrow> char" where
  "digit d = char_of (48 + d)"

function dec_nat :: "nat \<Rightarrow> string" where
  "dec_nat n = (if n < 10 then [digit n] else dec_nat (n div 10) @ [digit (n mod 10)])"
  by pat_completeness auto
termination
  by (relation "measure id") auto

definition dec_int :: "int \<Rightarrow> string" where
  "dec_int i = (if i < 0 then CHR ''-'' # dec_nat (nat (- i)) else dec_nat (nat i))"

fun intersperse :: "string \<Rightarrow> string list \<Rightarrow> string" where
  "intersperse sep [] = []"
| "intersperse sep [x] = x"
| "intersperse sep (x # y # ys) = x @ sep @ intersperse sep (y # ys)"

text \<open>
  \<^verbatim>\<open>String(x)\<close>, the conversion \<^verbatim>\<open>+\<close> applies to an operand when the other one is a
  string.  An array joins its elements with commas, printing \<^verbatim>\<open>null\<close> elements as
  nothing; an object prints as \<^verbatim>\<open>[object Object]\<close>.  (Integers of magnitude
  \<open>10^21\<close> and more print in exponent notation in JavaScript; here they print in
  full.)
\<close>

fun ToString :: "json \<Rightarrow> string" where
  "ToString JNull = ''null''"
| "ToString (JBool b) = (if b then ''true'' else ''false'')"
| "ToString (JNum n) = dec_int n"
| "ToString (JInf b) = (if b then ''Infinity'' else ''-Infinity'')"
| "ToString (JStr s) = s"
| "ToString (JArr xs) =
     intersperse '','' (map (\<lambda>x. if x = JNull then [] else ToString x) xs)"
| "ToString (JObj kvs) = ''[object Object]''"

text \<open>\<^verbatim>\<open>x + 1\<close>, the right-hand side of \<^verbatim>\<open>story.likes += 1\<close>.\<close>

fun plus_one :: "json \<Rightarrow> json" where
  "plus_one (JNum n) = JNum (n + 1)"
| "plus_one (JInf b) = JInf b"
| "plus_one JNull = JNum 1"
| "plus_one (JBool b) = JNum (if b then 2 else 1)"
| "plus_one (JStr s) = JStr (s @ ''1'')"
| "plus_one (JArr xs) = JStr (ToString (JArr xs) @ ''1'')"
| "plus_one (JObj kvs) = JStr (ToString (JObj kvs) @ ''1'')"

text \<open>\<^verbatim>\<open>toLowerCase\<close>, on ASCII letters (other bytes are left as they are).\<close>

definition lower_char :: "char \<Rightarrow> char" where
  "lower_char c =
     (let n = (of_char c :: nat) in if 65 \<le> n \<and> n \<le> 90 then char_of (n + 32) else c)"

definition toLowerCase :: "string \<Rightarrow> string" where
  "toLowerCase s = map lower_char s"

text \<open>\<^verbatim>\<open>s.includes(q)\<close>: \<open>q\<close> occurs in \<open>s\<close> as a contiguous substring.\<close>

fun includes_str :: "string \<Rightarrow> string \<Rightarrow> bool" where
  "includes_str [] q = (q = [])"
| "includes_str (c # cs) q = (prefix q (c # cs) \<or> includes_str cs q)"

text \<open>\<^verbatim>\<open>xs.findIndex(p)\<close>; \<open>None\<close> is the \<^verbatim>\<open>-1\<close> of JavaScript.\<close>

fun findIndex :: "('a \<Rightarrow> bool) \<Rightarrow> 'a list \<Rightarrow> nat option" where
  "findIndex p [] = None"
| "findIndex p (x # xs) =
     (if p x then Some 0 else map_option Suc (findIndex p xs))"

section \<open>Data model\<close>

text \<open>
  The entities as the handlers build them.  Ids and timestamps are strings
  (\<^verbatim>\<open>uuidv4()\<close>, \<^verbatim>\<open>new Date().toISOString()\<close>); every other field holds what the
  request body carried.  The seed user has \<^verbatim>\<open>avatarUrl\<close> and no \<^verbatim>\<open>email\<close>, a created
  user has \<^verbatim>\<open>email\<close> and no \<^verbatim>\<open>avatarUrl\<close>, so both are optional.
\<close>

record story =
  s_id :: string
  s_title :: json
  s_body :: json
  s_authorId :: json
  s_genre :: json
  s_likes :: json
  s_createdAt :: string

record user =
  u_id :: string
  u_name :: json
  u_email :: "json option"
  u_bio :: json
  u_avatarUrl :: "json option"

record comment =
  c_id :: string
  c_storyId :: string
  c_authorId :: json
  c_text :: json
  c_createdAt :: string

datatype error = ValidationError | NotFound | InternalError

text \<open>Request bodies, one optional JSON value per field the handler destructures.\<close>

record story_input =
  in_title :: "json option"
  in_body :: "json option"
  in_authorId :: "json option"
  in_genre :: "json option"

record story_patch =
  p_title :: "json option"
  p_body :: "json option"
  p_genre :: "json option"
  p_likes :: "json option"

record comment_input =
  ci_authorId :: "json option"
  ci_text :: "json option"

record user_input =
  ui_name :: "json option"
  ui_email :: "json option"

record activity_input =
  ai_userId :: "json option"
  ai_viewedStoryId :: "json option"

text \<open>
  Responses: the object handed to \<^verbatim>\<open>res.json\<close>, that is the stored entity with the
  fields computed at response time.
\<close>

record story_out =
  so_story :: story
  so_authorName :: json

record comment_out =
  co_comment :: comment
  co_authorName :: json

record story_detail =
  sd_story :: story
  sd_authorName :: json
  sd_comments :: "comment_out list"

section \<open>The file-backed server (\<^verbatim>\<open>src/unnamed/part_000\<close>)\<close>

subsection \<open>State and persistence\<close>

text \<open>
  The three module-level collections, and the two files the server reads and writes.
  \<^verbatim>\<open>data.json\<close> is handled wholly by \<^verbatim>\<open>fs-extra\<close> (\<^verbatim>\<open>readJsonSync\<close>,
  \<^verbatim>\<open>writeJson\<close>), so it is held as the JSON value its text denotes; \<open>None\<close> is a
  missing or unparsable file, for which \<^verbatim>\<open>readJsonSync(..., { throws: false })\<close>
  returns \<^verbatim>\<open>null\<close>.  \<^verbatim>\<open>userActivity.json\<close> is read and written as text by the
  server's own code, so it is held as text; \<open>None\<close> is a missing file.
\<close>

record state =
  stories :: "story list"
  users :: "user list"
  comments :: "comment list"
  dataFile :: "json option"
  activityFile :: "string option"

record db =
  db_stories :: "story list"
  db_users :: "user list"
  db_comments :: "comment list"

text \<open>The JavaScript objects behind the records, as \<^verbatim>\<open>writeJson\<close> sees them.\<close>

definition story_json :: "story \<Rightarrow> json" where
  "story_json s = JObj
     [(''id'', JStr (s_id s)), (''title'', s_title s), (''body'', s_body s),
      (''authorId'', s_authorId s), (''genre'', s_genre s), (''likes'', s_likes s),
      (''createdAt'', JStr (s_createdAt s))]"

definition opt_field :: "string \<Rightarrow> json option \<Rightarrow> (string \<times> json) list" where
  "opt_field k v = (case v of None \<Rightarrow> [] | Some x \<Rightarrow> [(k, x)])"

definition user_json :: "user \<Rightarrow> json" where
  "user_json u = JObj
     ([(''id'', JStr (u_id u)), (''name'', u_name u)] @ opt_field ''email'' (u_email u)
      @ [(''bio'', u_bio u)] @ opt_field ''avatarUrl'' (u_avatarUrl u))"

definition comment_json :: "comment \<Rightarrow> json" where
  "comment_json c = JObj
     [(''id'', JStr (c_id c)), (''storyId'', JStr (c_storyId c)),
      (''authorId'', c_authorId c), (''text'', c_text c),
      (''createdAt'', JStr (c_createdAt c))]"

definition db_json :: "db \<Rightarrow> json" where
  "db_json d = JObj
     [(''stories'', JArr (map story_json (db_stories d))),
      (''users'', JArr (map user_json (db_users d))),
      (''comments'', JArr (map comment_json (db_comments d)))]"

text \<open>
  What \<^verbatim>\<open>JSON.parse\<close> reads from what \<^verbatim>\<open>JSON.stringify\<close> wrote: the same value,
  with \<^verbatim>\<open>null\<close> in the place of every infinity.
\<close>

fun written :: "json \<Rightarrow> json" where
  "written (JInf b) = JNull"
| "written (JArr xs) = JArr (map written xs)"
| "written (JObj kvs) = JObj (map (\<lambda>kv. (fst kv, written (snd kv))) kvs)"
| "written JNull = JNull"
| "written (JBool b) = JBool b"
| "written (JNum n) = JNum n"
| "written (JStr s) = JStr s"

text \<open>
  Reading the objects back.  A document whose entities lack one of the fields the
  handlers always write, or hold an id or timestamp that is not a string, has no
  counterpart in the records above: the result is \<open>None\<close>.  Properties the handlers
  never write are not kept.
\<close>

fun mapM_option :: "('a \<Rightarrow> 'b option) \<Rightarrow> 'a list \<Rightarrow> 'b list option" where
  "mapM_option f [] = Some []"
| "mapM_option f (x # xs) =
     (case f x of None \<Rightarrow> None
      | Some y \<Rightarrow> (case mapM_option f xs of None \<Rightarrow> None | Some ys \<Rightarrow> Some (y # ys)))"

definition json_story :: "json \<Rightarrow> story option" where
  "json_story v = (case v of
     JObj kvs \<Rightarrow>
       (case (map_of kvs ''id'', map_of kvs ''title'', map_of kvs ''body'',
              map_of kvs ''authorId'', map_of kvs ''genre'', map_of kvs ''likes'',
              map_of kvs ''createdAt'') of
          (Some (JStr i), Some t, Some b, Some a, Some g, Some l, Some (JStr c)) \<Rightarrow>
            Some \<lparr>s_id = i, s_title = t, s_body = b, s_authorId = a, s_genre = g,
                  s_likes = l, s_createdAt = c\<rparr>
        | _ \<Rightarrow> None)
   | _ \<Rightarrow> None)"

definition json_user :: "json \<Rightarrow> user option" where
  "json_user v = (case v of
     JObj kvs \<Rightarrow>
       (case (map_of kvs ''id'', map_of kvs ''name'', map_of kvs ''bio'') of
          (Some (JStr i), Some n, Some b) \<Rightarrow>
            Some \<lparr>u_id = i, u_name = n, u_email = map_of kvs ''email'', u_bio = b,
                  u_avatarUrl = map_of kvs ''avatarUrl''\<rparr>
        | _ \<Rightarrow> None)
   | _ \<Rightarrow> None)"

definition json_comment :: "json \<Rightarrow> comment option" where
  "json_comment v = (case v of
     JObj kvs \<Rightarrow>
       (case (map_of kvs ''id'', map_of kvs ''storyId'', map_of kvs ''authorId'',
              map_of kvs ''text'', map_of kvs ''createdAt'') of
          (Some (JStr i), Some (JStr s), Some a, Some t, Some (JStr c)) \<Rightarrow>
            Some \<lparr>c_id = i, c_storyId = s, c_authorId = a, c_text = t, c_createdAt = c\<rparr>
        | _ \<Rightarrow> None)
   | _ \<Rightarrow> None)"

text \<open>\<^verbatim>\<open>let { stories, users, comments } = db\<close>.\<close>

definition json_db :: "json \<Rightarrow> db option" where
  "json_db v = (case v of
     JObj kvs \<Rightarrow>
       (case (map_of kvs ''stories'', map_of kvs ''users'', map_of kvs ''comments'') of
          (Some (JArr ss), Some (JArr us), Some (JArr cs)) \<Rightarrow>
            (case (mapM_option json_story ss, mapM_option json_user us,
                   mapM_option json_comment cs) of
               (Some ss', Some us', Some cs') \<Rightarrow>
                 Some \<lparr>db_stories = ss', db_users = us', db_comments = cs'\<rparr>
             | _ \<Rightarrow> None)
        | _ \<Rightarrow> None)
   | _ \<Rightarrow> None)"

text \<open>The seed dataset; \<open>now\<close> is \<^verbatim>\<open>new Date().toISOString()\<close> at start-up.\<close>

definition seed :: "string \<Rightarrow> db" where
  "seed now =
     \<lparr>db_stories =
        [\<lparr>s_id = ''s1'', s_title = JStr ''A Moonlit Night'',
          s_body = JStr ''Once upon a moonlit night...'', s_authorId = JStr ''u1'',
          s_genre = JStr ''Fantasy'', s_likes = JNum 3, s_createdAt = now\<rparr>],
      db_users =
        [\<lparr>u_id = ''u1'', u_name = JStr ''Meghana M'', u_email = None,
          u_bio = JStr ''Student'', u_avatarUrl = Some (JStr [])\<rparr>],
      db_comments = []\<rparr>"

text \<open>
  \<^verbatim>\<open>let db = fs.readJsonSync(DATA_FILE, { throws: false }) || { ...seed... }\<close>:
  the seed replaces a missing or unparsable file and also a document that is falsy.
\<close>

definition load_db :: "string \<Rightarrow> json option \<Rightarrow> db option" where
  "load_db now file =
     (case file of
        None \<Rightarrow> Some (seed now)
      | Some v \<Rightarrow> if truthy v then json_db v else Some (seed now))"

text \<open>Start-up: the collections are the loaded ones; the files are as found.\<close>

definition boot :: "string \<Rightarrow> json option \<Rightarrow> string option \<Rightarrow> state option" where
  "boot now file log =
     map_option
       (\<lambda>d. \<lparr>stories = db_stories d, users = db_users d, comments = db_comments d,
             dataFile = file, activityFile = log\<rparr>)
       (load_db now file)"

text \<open>
  \<^verbatim>\<open>saveDB\<close>: copy the three collections into \<^verbatim>\<open>db\<close> and overwrite the file with
  \<^verbatim>\<open>JSON.stringify(db)\<close>.  (I/O failures of \<^verbatim>\<open>writeJson\<close> are not modelled.)
\<close>

definition saveDB :: "state \<Rightarrow> state" where
  "saveDB st =
     st\<lparr>dataFile :=
          Some (written (db_json \<lparr>db_stories = stories st, db_users = users st,
                                  db_comments = comments st\<rparr>))\<rparr>"

subsection \<open>Story routes\<close>

text \<open>
  \<^verbatim>\<open>users.find((u) => u.id === authorId)\<close>, then
  \<^verbatim>\<open>author ? author.name : "Unknown"\<close>.  A user id is a string, so only a string
  \<^verbatim>\<open>authorId\<close> can match.
\<close>

definition authorName :: "user list \<Rightarrow> json \<Rightarrow> json" where
  "authorName us aid =
     (case find (\<lambda>u. JStr (u_id u) = aid) us of
        Some author \<Rightarrow> u_name author
      | None \<Rightarrow> JStr ''Unknown'')"

definition enrich_story :: "user list \<Rightarrow> story \<Rightarrow> story_out" where
  "enrich_story us s = \<lparr>so_story = s, so_authorName = authorName us (s_authorId s)\<rparr>"

definition enrich_comment :: "user list \<Rightarrow> comment \<Rightarrow> comment_out" where
  "enrich_comment us c = \<lparr>co_comment = c, co_authorName = authorName us (c_authorId c)\<rparr>"

text \<open>
  \<^verbatim>\<open>GET /api/stories?q=\<close>.  The query parameter is absent or a string; the response
  is \<^verbatim>\<open>{ data: result, meta: { total: result.length } }\<close>, of which \<open>result\<close> is
  modelled.
\<close>

definition matches :: "string \<Rightarrow> story \<Rightarrow> bool" where
  "matches q s =
     includes_str (toLowerCase (ToString (s_title s) @ '' '' @ ToString (s_body s))) q"

definition listStories :: "string option \<Rightarrow> state \<Rightarrow> story_out list" where
  "listStories query st =
     (let q = toLowerCase (case query of None \<Rightarrow> [] | Some x \<Rightarrow> x);
          result = (if q \<noteq> [] then filter (matches q) (stories st) else stories st)
      in map (enrich_story (users st)) result)"

text \<open>\<^verbatim>\<open>GET /api/stories/:id\<close>.\<close>

definition storyComments :: "state \<Rightarrow> story \<Rightarrow> comment_out list" where
  "storyComments st s =
     map (enrich_comment (users st)) (filter (\<lambda>c. c_storyId c = s_id s) (comments st))"

definition getStory :: "string \<Rightarrow> state \<Rightarrow> error + story_detail" where
  "getStory i st =
     (case find (\<lambda>s. s_id s = i) (stories st) of
        None \<Rightarrow> Inl NotFound
      | Some s \<Rightarrow>
          Inr \<lparr>sd_story = s, sd_authorName = authorName (users st) (s_authorId s),
               sd_comments = storyComments st s\<rparr>)"

text \<open>
  \<^verbatim>\<open>POST /api/stories\<close>.  \<open>uuid\<close> is what \<^verbatim>\<open>uuidv4()\<close> returned and \<open>now\<close> what
  \<^verbatim>\<open>new Date().toISOString()\<close> returned.
\<close>

definition createStory ::
  "story_input \<Rightarrow> string \<Rightarrow> string \<Rightarrow> state \<Rightarrow> (error + story_out) \<times> state" where
  "createStory inp uuid now st =
     (case (in_title inp, in_body inp, in_authorId inp) of
        (Some t, Some b, Some a) \<Rightarrow>
          if \<not> truthy t \<or> \<not> truthy b \<or> \<not> truthy a then (Inl ValidationError, st)
          else
            let newStory = \<lparr>s_id = uuid, s_title = t, s_body = b, s_authorId = a,
                             s_genre = or_empty (in_genre inp), s_likes = JNum 0,
                             s_createdAt = now\<rparr>;
                st' = saveDB (st\<lparr>stories := newStory # stories st\<rparr>)
            in (Inr (enrich_story (users st') newStory), st')
      | _ \<Rightarrow> (Inl ValidationError, st))"

text \<open>\<^verbatim>\<open>PUT /api/stories/:id\<close>: each field that is not \<^verbatim>\<open>undefined\<close> is assigned.\<close>

definition apply_patch :: "story_patch \<Rightarrow> story \<Rightarrow> story" where
  "apply_patch p s =
     (let s1 = (case p_title p of None \<Rightarrow> s | Some v \<Rightarrow> s\<lparr>s_title := v\<rparr>);
          s2 = (case p_body p of None \<Rightarrow> s1 | Some v \<Rightarrow> s1\<lparr>s_body := v\<rparr>);
          s3 = (case p_genre p of None \<Rightarrow> s2 | Some v \<Rightarrow> s2\<lparr>s_genre := v\<rparr>);
          s4 = (case p_likes p of None \<Rightarrow> s3 | Some v \<Rightarrow> s3\<lparr>s_likes := v\<rparr>)
      in s4)"

definition updateStory ::
  "string \<Rightarrow> story_patch \<Rightarrow> state \<Rightarrow> (error + story_out) \<times> state" where
  "updateStory i p st =
     (case findIndex (\<lambda>s. s_id s = i) (stories st) of
        None \<Rightarrow> (Inl NotFound, st)
      | Some idx \<Rightarrow>
          let st' = saveDB (st\<lparr>stories := (stories st)[idx := apply_patch p (stories st ! idx)]\<rparr>)
          in (Inr (enrich_story (users st') (stories st' ! idx)), st'))"

text \<open>
  \<^verbatim>\<open>DELETE /api/stories/:id\<close>: both collections are filtered first, the length test
  comes after.
\<close>

definition deleteStory :: "string \<Rightarrow> state \<Rightarrow> (error + unit) \<times> state" where
  "deleteStory i st =
     (let before = length (stories st);
          st1 = st\<lparr>stories := filter (\<lambda>s. s_id s \<noteq> i) (stories st)\<rparr>;
          st2 = st1\<lparr>comments := filter (\<lambda>c. c_storyId c \<noteq> i) (comments st1)\<rparr>
      in if length (stories st2) = before then (Inl NotFound, st2)
         else (Inr (), saveDB st2))"

text \<open>
  \<^verbatim>\<open>POST /api/stories/:id/like\<close>: \<^verbatim>\<open>find\<close> returns the first story with the id, and
  \<^verbatim>\<open>story.likes += 1\<close> changes that element of the collection in place.
\<close>

definition likeStory :: "string \<Rightarrow> state \<Rightarrow> (error + story_out) \<times> state" where
  "likeStory i st =
     (case findIndex (\<lambda>s. s_id s = i) (stories st) of
        None \<Rightarrow> (Inl NotFound, st)
      | Some idx \<Rightarrow>
          let story = stories st ! idx;
              story' = story\<lparr>s_likes := plus_one (s_likes story)\<rparr>;
              st' = saveDB (st\<lparr>stories := (stories st)[idx := story']\<rparr>)
          in (Inr (enrich_story (users st') story'), st'))"

subsection \<open>Comment routes\<close>

definition listComments :: "string \<Rightarrow> state \<Rightarrow> error + comment_out list" where
  "listComments i st =
     (case find (\<lambda>s. s_id s = i) (stories st) of
        None \<Rightarrow> Inl NotFound
      | Some s \<Rightarrow> Inr (storyComments st s))"

definition createComment ::
  "string \<Rightarrow> comment_input \<Rightarrow> string \<Rightarrow> string \<Rightarrow> state \<Rightarrow> (error + comment_out) \<times> state"
  where
  "createComment i inp uuid now st =
     (case find (\<lambda>s. s_id s = i) (stories st) of
        None \<Rightarrow> (Inl NotFound, st)
      | Some s \<Rightarrow>
          (case (ci_authorId inp, ci_text inp) of
             (Some a, Some t) \<Rightarrow>
               if \<not> truthy a \<or> \<not> truthy t then (Inl ValidationError, st)
               else
                 let newComment = \<lparr>c_id = uuid, c_storyId = s_id s, c_authorId = a,
                                    c_text = t, c_createdAt = now\<rparr>;
                     st' = saveDB (st\<lparr>comments := comments st @ [newComment]\<rparr>)
                 in (Inr (enrich_comment (users st') newComment), st')
           | _ \<Rightarrow> (Inl ValidationError, st)))"

definition deleteComment :: "string \<Rightarrow> state \<Rightarrow> (error + unit) \<times> state" where
  "deleteComment i st =
     (let before = length (comments st);
          st1 = st\<lparr>comments := filter (\<lambda>c. c_id c \<noteq> i) (comments st)\<rparr>
      in if length (comments st1) = before then (Inl NotFound, st1)
         else (Inr (), saveDB st1))"

subsection \<open>User routes\<close>

definition getUser :: "string \<Rightarrow> state \<Rightarrow> error + user" where
  "getUser i st =
     (case find (\<lambda>u. u_id u = i) (users st) of
        None \<Rightarrow> Inl NotFound
      | Some u \<Rightarrow> Inr u)"

definition createUser :: "user_input \<Rightarrow> string \<Rightarrow> state \<Rightarrow> (error + user) \<times> state" where
  "createUser inp uuid st =
     (case ui_name inp of
        None \<Rightarrow> (Inl ValidationError, st)
      | Some n \<Rightarrow>
          if \<not> truthy n then (Inl ValidationError, st)
          else
            let newUser = \<lparr>u_id = uuid, u_name = n, u_email = Some (or_empty (ui_email inp)),
                            u_bio = JStr [], u_avatarUrl = None\<rparr>
            in (Inr newUser, saveDB (st\<lparr>users := users st @ [newUser]\<rparr>)))"

subsection \<open>The activity log: text, lines and \<^verbatim>\<open>JSON.parse\<close>\<close>

text \<open>
  \<^verbatim>\<open>getUserHistory\<close> works on the text of \<^verbatim>\<open>userActivity.json\<close>:
  \<^verbatim>\<open>fs.readFileSync(activityFile, "utf-8").trim().split("\n")\<close> and then
  \<^verbatim>\<open>JSON.parse\<close> on every line.  The three library functions are modelled on
  byte strings.
\<close>

definition trim_ws :: "char \<Rightarrow> bool" where
  "trim_ws c = (c \<in> set [CHR 0x20, CHR 0x09, CHR 0x0A, CHR 0x0B, CHR 0x0C, CHR 0x0D])"

definition trim :: "string \<Rightarrow> string" where
  "trim s = rev (dropWhile trim_ws (rev (dropWhile trim_ws s)))"

text \<open>\<^verbatim>\<open>s.split("\n")\<close>: the empty string splits into one empty line.\<close>

fun split_nl :: "string \<Rightarrow> string list" where
  "split_nl [] = [[]]"
| "split_nl (c # cs) =
     (if c = CHR 0x0A then [] # split_nl cs
      else (case split_nl cs of [] \<Rightarrow> [[c]] | l # ls \<Rightarrow> (c # l) # ls))"

datatype exn = SyntaxError | TypeError

text \<open>
  \<^verbatim>\<open>JSON.parse\<close>, a recursive-descent reader of the JSON grammar: white space,
  \<^verbatim>\<open>null\<close>, \<^verbatim>\<open>true\<close>, \<^verbatim>\<open>false\<close>, integers, strings with their escapes, arrays
  and objects.  A number with a fraction or an exponent and a \<^verbatim>\<open>\u\<close> escape of a
  surrogate are outside this reader and are refused like a syntax error.
\<close>

definition json_ws :: "char \<Rightarrow> bool" where
  "json_ws c = (c \<in> set [CHR 0x20, CHR 0x09, CHR 0x0A, CHR 0x0D])"

definition skip_ws :: "string \<Rightarrow> string" where
  "skip_ws s = dropWhile json_ws s"

definition is_digit :: "char \<Rightarrow> bool" where
  "is_digit c = (let n = (of_char c :: nat) in 48 \<le> n \<and> n \<le> 57)"

definition digit_val :: "char \<Rightarrow> nat" where
  "digit_val c = of_char c - 48"

definition hex_val :: "char \<Rightarrow> nat option" where
  "hex_val c =
     (let n = (of_char c :: nat) in
      if 48 \<le> n \<and> n \<le> 57 then Some (n - 48)
      else if 65 \<le> n \<and> n \<le> 70 then Some (n - 55)
      else if 97 \<le> n \<and> n \<le> 102 then Some (n - 87)
      else None)"

definition hex4 :: "char \<Rightarrow> char \<Rightarrow> char \<Rightarrow> char \<Rightarrow> nat option" where
  "hex4 a b c d =
     (case (hex_val a, hex_val b, hex_val c, hex_val d) of
        (Some w, Some x, Some y, Some z) \<Rightarrow> Some (((w * 16 + x) * 16 + y) * 16 + z)
      | _ \<Rightarrow> None)"

text \<open>The UTF-8 bytes of a code point of the basic plane; a surrogate has none.\<close>

definition utf8 :: "nat \<Rightarrow> string option" where
  "utf8 n =
     (if n < 128 then Some [char_of n]
      else if n < 2048 then Some [char_of (192 + n div 64), char_of (128 + n mod 64)]
      else if 55296 \<le> n \<and> n < 57344 then None
      else Some [char_of (224 + n div 4096), char_of (128 + (n div 64) mod 64),
                 char_of (128 + n mod 64)])"

definition simple_escape :: "char \<Rightarrow> char option" where
  "simple_escape e =
     (if e = CHR 0x22 then Some (CHR 0x22)
      else if e = CHR 0x5C then Some (CHR 0x5C)
      else if e = CHR ''/'' then Some (CHR ''/'')
      else if e = CHR ''b'' then Some (CHR 0x08)
      else if e = CHR ''f'' then Some (CHR 0x0C)
      else if e = CHR ''n'' then Some (CHR 0x0A)
      else if e = CHR ''r'' then Some (CHR 0x0D)
      else if e = CHR ''t'' then Some (CHR 0x09)
      else None)"

text \<open>The characters of a string literal after its opening quote, up to the closing one.\<close>

fun parse_chars :: "string \<Rightarrow> string \<Rightarrow> (string \<times> string) option" where
  "parse_chars acc [] = None"
| "parse_chars acc (c # cs) =
     (if c = CHR 0x22 then Some (rev acc, cs)
      else if c = CHR 0x5C then
        (case cs of
           [] \<Rightarrow> None
         | e # r \<Rightarrow>
             if e = CHR ''u'' then
               (case r of
                  h1 # h2 # h3 # h4 # r' \<Rightarrow>
                    (case hex4 h1 h2 h3 h4 of
                       None \<Rightarrow> None
                     | Some n \<Rightarrow>
                         (case utf8 n of
                            None \<Rightarrow> None
                          | Some bs \<Rightarrow> parse_chars (rev bs @ acc) r'))
                | _ \<Rightarrow> None)
             else
               (case simple_escape e of
                  None \<Rightarrow> None
                | Some x \<Rightarrow> parse_chars (x # acc) r))
      else if (of_char c :: nat) < 32 then None
      else parse_chars (c # acc) cs)"

text \<open>
  An integer literal: an optional minus sign, then \<^verbatim>\<open>0\<close> or digits not starting with
  \<^verbatim>\<open>0\<close>.  From \<open>double_limit\<close> on, a magnitude rounds to infinity.
\<close>

definition double_limit :: nat where
  "double_limit = 2 ^ 1024 - 2 ^ 970"

definition parse_number :: "string \<Rightarrow> (json \<times> string) option" where
  "parse_number s =
     (let neg = (s \<noteq> [] \<and> hd s = CHR ''-'');
          s1 = (if neg then tl s else s);
          ds = takeWhile is_digit s1;
          r = dropWhile is_digit s1;
          n = foldl (\<lambda>a c. a * 10 + digit_val c) 0 ds
      in if ds = [] then None
         else if hd ds = CHR ''0'' \<and> length ds > 1 then None
         else if r \<noteq> [] \<and> (hd r = CHR ''.'' \<or> hd r = CHR ''e'' \<or> hd r = CHR ''E'') then None
         else if double_limit \<le> n then Some (JInf (\<not> neg), r)
         else Some (JNum (if neg then - int n else int n), r))"

text \<open>
  The values.  The first argument bounds the depth of the calls; every second call at
  least consumes a character, so twice the length of the text is enough
  (\<open>JSON_parse\<close> below; lemma \<open>parse_value_fuel\<close>).
\<close>

fun parse_value :: "nat \<Rightarrow> string \<Rightarrow> (json \<times> string) option"
  and parse_elems :: "nat \<Rightarrow> json list \<Rightarrow> string \<Rightarrow> (json list \<times> string) option"
  and parse_members ::
    "nat \<Rightarrow> (string \<times> json) list \<Rightarrow> string \<Rightarrow> ((string \<times> json) list \<times> string) option"
  where
  "parse_value 0 s = None"
| "parse_value (Suc n) s =
     (case skip_ws s of
        [] \<Rightarrow> None
      | c # cs \<Rightarrow>
          if c = CHR ''{'' then
            (case skip_ws cs of
               [] \<Rightarrow> None
             | d # r \<Rightarrow>
                 if d = CHR ''}'' then Some (JObj [], r)
                 else map_option (\<lambda>(kvs, r'). (JObj kvs, r')) (parse_members n [] cs))
          else if c = CHR ''['' then
            (case skip_ws cs of
               [] \<Rightarrow> None
             | d # r \<Rightarrow>
                 if d = CHR '']'' then Some (JArr [], r)
                 else map_option (\<lambda>(xs, r'). (JArr xs, r')) (parse_elems n [] cs))
          else if c = CHR 0x22 then
            map_option (\<lambda>(x, r). (JStr x, r)) (parse_chars [] cs)
          else if prefix ''null'' (c # cs) then Some (JNull, drop 4 (c # cs))
          else if prefix ''true'' (c # cs) then Some (JBool True, drop 4 (c # cs))
          else if prefix ''false'' (c # cs) then Some (JBool False, drop 5 (c # cs))
          else parse_number (c # cs))"
| "parse_elems 0 acc s = None"
| "parse_elems (Suc n) acc s =
     (case parse_value n s of
        None \<Rightarrow> None
      | Some (v, r) \<Rightarrow>
          (case skip_ws r of
             [] \<Rightarrow> None
           | d # r' \<Rightarrow>
               if d = CHR '','' then parse_elems n (acc @ [v]) r'
               else if d = CHR '']'' then Some (acc @ [v], r')
               else None))"
| "parse_members 0 acc s = None"
| "parse_members (Suc n) acc s =
     (case skip_ws s of
        [] \<Rightarrow> None
      | q # s1 \<Rightarrow>
          if q \<noteq> CHR 0x22 then None
          else
            (case parse_chars [] s1 of
               None \<Rightarrow> None
             | Some (k, s2) \<Rightarrow>
                 (case skip_ws s2 of
                    [] \<Rightarrow> None
                  | col # s3 \<Rightarrow>
                      if col \<noteq> CHR '':'' then None
                      else
                        (case parse_value n s3 of
                           None \<Rightarrow> None
                         | Some (v, r) \<Rightarrow>
                             (case skip_ws r of
                                [] \<Rightarrow> None
                              | d # r' \<Rightarrow>
                                  if d = CHR '','' then
                                    parse_members n (AList.update k v acc) r'
                                  else if d = CHR ''}'' then
                                    Some (AList.update k v acc, r')
                                  else None)))))"

definition JSON_parse :: "string \<Rightarrow> exn + json" where
  "JSON_parse s =
     (case parse_value (2 * length s + 2) s of
        None \<Rightarrow> Inl SyntaxError
      | Some (v, r) \<Rightarrow> if skip_ws r = [] then Inr v else Inl SyntaxError)"

text \<open>\<^verbatim>\<open>JSON.stringify\<close> without indentation, as \<^verbatim>\<open>POST /api/userActivity\<close> calls it.\<close>

definition hex_digit :: "nat \<Rightarrow> char" where
  "hex_digit d = (if d < 10 then char_of (48 + d) else char_of (87 + d))"

definition escape_char :: "char \<Rightarrow> string" where
  "escape_char c =
     (let n = (of_char c :: nat) in
      if c = CHR 0x22 then [CHR 0x5C, CHR 0x22]
      else if c = CHR 0x5C then [CHR 0x5C, CHR 0x5C]
      else if c = CHR 0x08 then [CHR 0x5C, CHR ''b'']
      else if c = CHR 0x0C then [CHR 0x5C, CHR ''f'']
      else if c = CHR 0x0A then [CHR 0x5C, CHR ''n'']
      else if c = CHR 0x0D then [CHR 0x5C, CHR ''r'']
      else if c = CHR 0x09 then [CHR 0x5C, CHR ''t'']
      else if n < 32 then [CHR 0x5C, CHR ''u'', CHR ''0'', CHR ''0'', hex_digit (n div 16),
                           hex_digit (n mod 16)]
      else [c])"

definition quote :: "string \<Rightarrow> string" where
  "quote s = [CHR 0x22] @ concat (map escape_char s) @ [CHR 0x22]"

fun stringify :: "json \<Rightarrow> string" where
  "stringify JNull = ''null''"
| "stringify (JBool b) = (if b then ''true'' else ''false'')"
| "stringify (JNum n) = dec_int n"
| "stringify (JInf b) = ''null''"
| "stringify (JStr s) = quote s"
| "stringify (JArr xs) = ''['' @ intersperse '','' (map stringify xs) @ '']''"
| "stringify (JObj kvs) =
     ''{'' @ intersperse '','' (map (\<lambda>kv. quote (fst kv) @ '':'' @ stringify (snd kv)) kvs)
     @ ''}''"

subsection \<open>Activity and recommendation routes\<close>

text \<open>
  \<^verbatim>\<open>a.userId\<close> and \<^verbatim>\<open>lastViewed.viewedStoryId\<close> on a parsed line: reading a property
  of \<^verbatim>\<open>null\<close> throws, an object yields the property or \<^verbatim>\<open>undefined\<close>, and no other
  JSON value has a property of either name.
\<close>

fun get_prop :: "json \<Rightarrow> string \<Rightarrow> exn + json option" where
  "get_prop JNull k = Inl TypeError"
| "get_prop (JObj kvs) k = Inr (map_of kvs k)"
| "get_prop _ k = Inr None"

fun mapM_exn :: "('a \<Rightarrow> exn + 'b) \<Rightarrow> 'a list \<Rightarrow> exn + 'b list" where
  "mapM_exn f [] = Inr []"
| "mapM_exn f (x # xs) =
     (case f x of
        Inl e \<Rightarrow> Inl e
      | Inr y \<Rightarrow> (case mapM_exn f xs of Inl e \<Rightarrow> Inl e | Inr ys \<Rightarrow> Inr (y # ys)))"

text \<open>\<^verbatim>\<open>allActivity.filter((a) => a.userId === userId)\<close>.\<close>

fun filter_user :: "string \<Rightarrow> json list \<Rightarrow> exn + json list" where
  "filter_user userId [] = Inr []"
| "filter_user userId (a # as) =
     (case get_prop a ''userId'' of
        Inl e \<Rightarrow> Inl e
      | Inr u \<Rightarrow>
          (case filter_user userId as of
             Inl e \<Rightarrow> Inl e
           | Inr r \<Rightarrow> Inr (if eq_str u userId then a # r else r)))"

definition getUserHistory :: "string \<Rightarrow> state \<Rightarrow> exn + json list" where
  "getUserHistory userId st =
     (case activityFile st of
        None \<Rightarrow> Inr []
      | Some content \<Rightarrow>
          (case mapM_exn JSON_parse (split_nl (trim content)) of
             Inl e \<Rightarrow> Inl e
           | Inr allActivity \<Rightarrow> filter_user userId allActivity))"

text \<open>
  \<^verbatim>\<open>GET /api/recommend/:userId\<close>.  The handler is synchronous, so an exception thrown
  inside it reaches the global error handler, which answers 500.
\<close>

definition recommend :: "string \<Rightarrow> state \<Rightarrow> error + story list" where
  "recommend userId st =
     (case getUserHistory userId st of
        Inl e \<Rightarrow> Inl InternalError
      | Inr userHistory \<Rightarrow>
          if length userHistory = 0 then Inr []
          else
            let lastViewed = userHistory ! (length userHistory - 1) in
            (case get_prop lastViewed ''viewedStoryId'' of
               Inl e \<Rightarrow> Inl InternalError
             | Inr vid \<Rightarrow>
                 (case find (\<lambda>s. eq_str vid (s_id s)) (stories st) of
                    None \<Rightarrow> Inr []
                  | Some viewedStory \<Rightarrow>
                      let lastGenre = s_genre viewedStory in
                      Inr (take 3
                            (filter
                              (\<lambda>s. strict_eq (s_genre s) lastGenre
                                   \<and> s_id s \<noteq> s_id viewedStory)
                              (stories st))))))"

text \<open>
  \<^verbatim>\<open>POST /api/userActivity\<close>.  The handler first reads the log inside
  \<^verbatim>\<open>try { ... } catch\<close> into a local array it never uses again, so only the append
  shows: \<^verbatim>\<open>appendFileSync\<close> creates the file when it is missing.
\<close>

definition recordActivity ::
  "activity_input \<Rightarrow> string \<Rightarrow> state \<Rightarrow> (error + unit) \<times> state" where
  "recordActivity inp now st =
     (case (ai_userId inp, ai_viewedStoryId inp) of
        (Some u, Some v) \<Rightarrow>
          if \<not> truthy u \<or> \<not> truthy v then (Inl ValidationError, st)
          else
            let line = stringify (JObj [(''userId'', u), (''viewedStoryId'', v),
                                        (''timestamp'', JStr now)]) @ [CHR 0x0A];
                old = (case activityFile st of None \<Rightarrow> [] | Some c \<Rightarrow> c)
            in (Inr (), st\<lparr>activityFile := Some (old @ line)\<rparr>)
      | _ \<Rightarrow> (Inl ValidationError, st))"

section \<open>The in-memory server (\<^verbatim>\<open>src/server.js\<close>)\<close>

text \<open>
  The same routes over the same three collections, without files, without
  \<^verbatim>\<open>authorName\<close> in the responses, without the like, activity and recommendation
  routes, and with a \<^verbatim>\<open>PUT\<close> that reads \<^verbatim>\<open>title\<close>, \<^verbatim>\<open>body\<close> and \<^verbatim>\<open>genre\<close> only.
\<close>

record mem_state =
  m_stories :: "story list"
  m_users :: "user list"
  m_comments :: "comment list"

definition mem_init :: "string \<Rightarrow> mem_state" where
  "mem_init now =
     \<lparr>m_stories = db_stories (seed now), m_users = db_users (seed now), m_comments = []\<rparr>"

definition mem_listStories :: "string option \<Rightarrow> mem_state \<Rightarrow> story list" where
  "mem_listStories query st =
     (let q = toLowerCase (case query of None \<Rightarrow> [] | Some x \<Rightarrow> x)
      in if q \<noteq> [] then filter (matches q) (m_stories st) else m_stories st)"

definition mem_getStory :: "string \<Rightarrow> mem_state \<Rightarrow> error + story \<times> comment list" where
  "mem_getStory i st =
     (case find (\<lambda>s. s_id s = i) (m_stories st) of
        None \<Rightarrow> Inl NotFound
      | Some s \<Rightarrow> Inr (s, filter (\<lambda>c. c_storyId c = s_id s) (m_comments st)))"

definition mem_createStory ::
  "story_input \<Rightarrow> string \<Rightarrow> string \<Rightarrow> mem_state \<Rightarrow> (error + story) \<times> mem_state" where
  "mem_createStory inp uuid now st =
     (case (in_title inp, in_body inp, in_authorId inp) of
        (Some t, Some b, Some a) \<Rightarrow>
          if \<not> truthy t \<or> \<not> truthy b \<or> \<not> truthy a then (Inl ValidationError, st)
          else
            let newStory = \<lparr>s_id = uuid, s_title = t, s_body = b, s_authorId = a,
                             s_genre = or_empty (in_genre inp), s_likes = JNum 0,
                             s_createdAt = now\<rparr>
            in (Inr newStory, st\<lparr>m_stories := newStory # m_stories st\<rparr>)
      | _ \<Rightarrow> (Inl ValidationError, st))"

definition mem_apply_patch :: "story_patch \<Rightarrow> story \<Rightarrow> story" where
  "mem_apply_patch p s =
     (let s1 = (case p_title p of None \<Rightarrow> s | Some v \<Rightarrow> s\<lparr>s_title := v\<rparr>);
          s2 = (case p_body p of None \<Rightarrow> s1 | Some v \<Rightarrow> s1\<lparr>s_body := v\<rparr>);
          s3 = (case p_genre p of None \<Rightarrow> s2 | Some v \<Rightarrow> s2\<lparr>s_genre := v\<rparr>)
      in s3)"

definition mem_updateStory ::
  "string \<Rightarrow> story_patch \<Rightarrow> mem_state \<Rightarrow> (error + story) \<times> mem_state" where
  "mem_updateStory i p st =
     (case findIndex (\<lambda>s. s_id s = i) (m_stories st) of
        None \<Rightarrow> (Inl NotFound, st)
      | Some idx \<Rightarrow>
          let st' = st\<lparr>m_stories := (m_stories st)[idx := mem_apply_patch p (m_stories st ! idx)]\<rparr>
          in (Inr (m_stories st' ! idx), st'))"

text \<open>Here the length test comes before the comments are filtered.\<close>

definition mem_deleteStory :: "string \<Rightarrow> mem_state \<Rightarrow> (error + unit) \<times> mem_state" where
  "mem_deleteStory i st =
     (let before = length (m_stories st);
          st1 = st\<lparr>m_stories := filter (\<lambda>s. s_id s \<noteq> i) (m_stories st)\<rparr>
      in if length (m_stories st1) = before then (Inl NotFound, st1)
         else (Inr (), st1\<lparr>m_comments := filter (\<lambda>c. c_storyId c \<noteq> i) (m_comments st1)\<rparr>))"

definition mem_listComments :: "string \<Rightarrow> mem_state \<Rightarrow> error + comment list" where
  "mem_listComments i st =
     (case find (\<lambda>s. s_id s = i) (m_stories st) of
        None \<Rightarrow> Inl NotFound
      | Some s \<Rightarrow> Inr (filter (\<lambda>c. c_storyId c = s_id s) (m_comments st)))"

definition mem_createComment ::
  "string \<Rightarrow> comment_input \<Rightarrow> string \<Rightarrow> string \<Rightarrow> mem_state
     \<Rightarrow> (error + comment) \<times> mem_state" where
  "mem_createComment i inp uuid now st =
     (case find (\<lambda>s. s_id s = i) (m_stories st) of
        None \<Rightarrow> (Inl NotFound, st)
      | Some s \<Rightarrow>
          (case (ci_authorId inp, ci_text inp) of
             (Some a, Some t) \<Rightarrow>
               if \<not> truthy a \<or> \<not> truthy t then (Inl ValidationError, st)
               else
                 let newComment = \<lparr>c_id = uuid, c_storyId = s_id s, c_authorId = a,
                                    c_text = t, c_createdAt = now\<rparr>
                 in (Inr newComment, st\<lparr>m_comments := m_comments st @ [newComment]\<rparr>)
           | _ \<Rightarrow> (Inl ValidationError, st)))"

definition mem_deleteComment :: "string \<Rightarrow> mem_state \<Rightarrow> (error + unit) \<times> mem_state" where
  "mem_deleteComment i st =
     (let before = length (m_comments st);
          st1 = st\<lparr>m_comments := filter (\<lambda>c. c_id c \<noteq> i) (m_comments st)\<rparr>
      in if length (m_comments st1) = before then (Inl NotFound, st1)
         else (Inr (), st1))"

definition mem_getUser :: "string \<Rightarrow> mem_state \<Rightarrow> error + user" where
  "mem_getUser i st =
     (case find (\<lambda>u. u_id u = i) (m_users st) of
        None \<Rightarrow> Inl NotFound
      | Some u \<Rightarrow> Inr u)"

definition mem_createUser ::
  "user_input \<Rightarrow> string \<Rightarrow> mem_state \<Rightarrow> (error + user) \<times> mem_state" where
  "mem_createUser inp uuid st =
     (case ui_name inp of
        None \<Rightarrow> (Inl ValidationError, st)
      | Some n \<Rightarrow>
          if \<not> truthy n then (Inl ValidationError, st)
          else
            let newUser = \<lparr>u_id = uuid, u_name = n, u_email = Some (or_empty (ui_email inp)),
                            u_bio = JStr [], u_avatarUrl = None\<rparr>
            in (Inr newUser, st\<lparr>m_users := m_users st @ [newUser]\<rparr>))"

section \<open>Requests and runs\<close>

text \<open>
  One constructor per route of \<^verbatim>\<open>src/unnamed/part_000\<close> that touches the store or the
  log, carrying the route parameter, the request body and what \<^verbatim>\<open>uuidv4()\<close> and
  \<^verbatim>\<open>new Date().toISOString()\<close> return during the request.  (\<^verbatim>\<open>POST /subscribe\<close>
  touches neither.)
\<close>

datatype request =
    ListStories "string option"
  | GetStory string
  | CreateStory story_input string string
  | UpdateStory string story_patch
  | DeleteStory string
  | LikeStory string
  | ListComments string
  | CreateComment string comment_input string string
  | DeleteComment string
  | RecordActivity activity_input string
  | Recommend string
  | GetUser string
  | CreateUser user_input string

datatype reply =
    Stories "story_out list"
  | Detail story_detail
  | Story story_out
  | Comments "comment_out list"
  | Comment comment_out
  | Recorded
  | Recommended "story list"
  | User user
  | NoContent

definition reply_with ::
  "('a \<Rightarrow> reply) \<Rightarrow> (error + 'a) \<times> state \<Rightarrow> (error + reply) \<times> state" where
  "reply_with f r = (map_sum (\<lambda>e. e) f (fst r), snd r)"

fun handle :: "request \<Rightarrow> state \<Rightarrow> (error + reply) \<times> state" where
  "handle (ListStories q) st = (Inr (Stories (listStories q st)), st)"
| "handle (GetStory i) st = reply_with Detail (getStory i st, st)"
| "handle (CreateStory inp uuid now) st = reply_with Story (createStory inp uuid now st)"
| "handle (UpdateStory i p) st = reply_with Story (updateStory i p st)"
| "handle (DeleteStory i) st = reply_with (\<lambda>_. NoContent) (deleteStory i st)"
| "handle (LikeStory i) st = reply_with Story (likeStory i st)"
| "handle (ListComments i) st = reply_with Comments (listComments i st, st)"
| "handle (CreateComment i inp uuid now) st =
     reply_with Comment (createComment i inp uuid now st)"
| "handle (DeleteComment i) st = reply_with (\<lambda>_. NoContent) (deleteComment i st)"
| "handle (RecordActivity inp now) st = reply_with (\<lambda>_. Recorded) (recordActivity inp now st)"
| "handle (Recommend u) st = reply_with Recommended (recommend u st, st)"
| "handle (GetUser i) st = reply_with User (getUser i st, st)"
| "handle (CreateUser inp uuid) st = reply_with User (createUser inp uuid st)"

text \<open>The state after a sequence of requests, handled one after the other.\<close>

fun run :: "request list \<Rightarrow> state \<Rightarrow> state" where
  "run [] st = st"
| "run (r # rs) st = run rs (snd (handle r st))"

text \<open>The routes of \<^verbatim>\<open>src/server.js\<close>.\<close>

datatype mem_request =
    MListStories "string option"
  | MGetStory string
  | MCreateStory story_input string string
  | MUpdateStory string story_patch
  | MDeleteStory string
  | MListComments string
  | MCreateComment string comment_input string string
  | MDeleteComment string
  | MGetUser string
  | MCreateUser user_input string

datatype mem_reply =
    MStories "story list"
  | MDetail "story \<times> comment list"
  | MStory story
  | MComments "comment list"
  | MComment comment
  | MUser user
  | MNoContent

definition mem_reply_with ::
  "('a \<Rightarrow> mem_reply) \<Rightarrow> (error + 'a) \<times> mem_state \<Rightarrow> (error + mem_reply) \<times> mem_state"
  where
  "mem_reply_with f r = (map_sum (\<lambda>e. e) f (fst r), snd r)"

fun mem_handle :: "mem_request \<Rightarrow> mem_state \<Rightarrow> (error + mem_reply) \<times> mem_state" where
  "mem_handle (MListStories q) st = (Inr (MStories (mem_listStories q st)), st)"
| "mem_handle (MGetStory i) st = mem_reply_with MDetail (mem_getStory i st, st)"
| "mem_handle (MCreateStory inp uuid now) st =
     mem_reply_with MStory (mem_createStory inp uuid now st)"
| "mem_handle (MUpdateStory i p) st = mem_reply_with MStory (mem_updateStory i p st)"
| "mem_handle (MDeleteStory i) st = mem_reply_with (\<lambda>_. MNoContent) (mem_deleteStory i st)"
| "mem_handle (MListComments i) st = mem_reply_with MComments (mem_listComments i st, st)"
| "mem_handle (MCreateComment i inp uuid now) st =
     mem_reply_with MComment (mem_createComment i inp uuid now st)"
| "mem_handle (MDeleteComment i) st =
     mem_reply_with (\<lambda>_. MNoContent) (mem_deleteComment i st)"
| "mem_handle (MGetUser i) st = mem_reply_with MUser (mem_getUser i st, st)"
| "mem_handle (MCreateUser inp uuid) st = mem_reply_with MUser (mem_createUser inp uuid st)"

section \<open>Vocabulary of the specification\<close>

subsection \<open>The recommendation rule in the specification's words\<close>

text \<open>The first at most \<open>n\<close> elements of a list, in its order, that satisfy \<open>p\<close>.\<close>

fun first_matching :: "nat \<Rightarrow> ('a \<Rightarrow> bool) \<Rightarrow> 'a list \<Rightarrow> 'a list" where
  "first_matching 0 p xs = []"
| "first_matching (Suc n) p [] = []"
| "first_matching (Suc n) p (x # xs) =
     (if p x then x # first_matching n p xs else first_matching (Suc n) p xs)"

text \<open>The \<^verbatim>\<open>viewedStoryId\<close> of an activity record, if it has one.\<close>

definition viewed_id :: "json \<Rightarrow> json option" where
  "viewed_id r = (case r of JObj kvs \<Rightarrow> map_of kvs ''viewedStoryId'' | _ \<Rightarrow> None)"

text \<open>
  Section 4.3: an empty history gives nothing; otherwise the last record's viewed story
  is looked up, a story that no longer exists gives nothing, and else the first at most
  three stories of the viewed story's genre, the viewed story left out, are returned in
  collection order.  Two genres are equal when \<^verbatim>\<open>===\<close> says so.
\<close>

definition recommend_spec :: "story list \<Rightarrow> json list \<Rightarrow> story list" where
  "recommend_spec ss history =
     (if history = [] then []
      else
        (case find (\<lambda>s. viewed_id (last history) = Some (JStr (s_id s))) ss of
           None \<Rightarrow> []
         | Some viewed \<Rightarrow>
             first_matching 3
               (\<lambda>s. strict_eq (s_genre s) (s_genre viewed) \<and> s_id s \<noteq> s_id viewed) ss))"

subsection \<open>Patches\<close>

text \<open>The value of a field after a patch: the patch's value where the patch has the field,
  the stored value where it has not.\<close>

definition patched :: "json option \<Rightarrow> json \<Rightarrow> json" where
  "patched new old = (case new of None \<Rightarrow> old | Some v \<Rightarrow> v)"

subsection \<open>Invariants\<close>

text \<open>A value without an infinity in it, and a store of such values.\<close>

fun finite_json :: "json \<Rightarrow> bool" where
  "finite_json (JInf b) = False"
| "finite_json (JArr xs) = list_all finite_json xs"
| "finite_json (JObj kvs) = list_all (\<lambda>kv. finite_json (snd kv)) kvs"
| "finite_json JNull = True"
| "finite_json (JBool b) = True"
| "finite_json (JNum n) = True"
| "finite_json (JStr s) = True"

fun finite_opt :: "json option \<Rightarrow> bool" where
  "finite_opt None = True"
| "finite_opt (Some v) = finite_json v"

definition finite_story :: "story \<Rightarrow> bool" where
  "finite_story s =
     (finite_json (s_title s) \<and> finite_json (s_body s) \<and> finite_json (s_authorId s)
      \<and> finite_json (s_genre s) \<and> finite_json (s_likes s))"

definition finite_user :: "user \<Rightarrow> bool" where
  "finite_user u =
     (finite_json (u_name u) \<and> finite_opt (u_email u) \<and> finite_json (u_bio u)
      \<and> finite_opt (u_avatarUrl u))"

definition finite_comment :: "comment \<Rightarrow> bool" where
  "finite_comment c = (finite_json (c_authorId c) \<and> finite_json (c_text c))"

definition finite_state :: "state \<Rightarrow> bool" where
  "finite_state st =
     (list_all finite_story (stories st) \<and> list_all finite_user (users st)
      \<and> list_all finite_comment (comments st))"

text \<open>A request whose body holds no infinity.\<close>

fun finite_request :: "request \<Rightarrow> bool" where
  "finite_request (CreateStory inp uuid now) =
     (finite_opt (in_title inp) \<and> finite_opt (in_body inp) \<and> finite_opt (in_authorId inp)
      \<and> finite_opt (in_genre inp))"
| "finite_request (UpdateStory i p) =
     (finite_opt (p_title p) \<and> finite_opt (p_body p) \<and> finite_opt (p_genre p)
      \<and> finite_opt (p_likes p))"
| "finite_request (CreateComment i inp uuid now) =
     (finite_opt (ci_authorId inp) \<and> finite_opt (ci_text inp))"
| "finite_request (CreateUser inp uuid) =
     (finite_opt (ui_name inp) \<and> finite_opt (ui_email inp))"
| "finite_request _ = True"

fun nonneg_int :: "json \<Rightarrow> bool" where
  "nonneg_int (JNum n) = (0 \<le> n)"
| "nonneg_int _ = False"

definition likes_ok :: "state \<Rightarrow> bool" where
  "likes_ok st = list_all (\<lambda>s. nonneg_int (s_likes s)) (stories st)"

text \<open>A request whose patch, if it is an update, carries no \<^verbatim>\<open>likes\<close> or a non-negative integer.\<close>

fun likes_patch_ok :: "request \<Rightarrow> bool" where
  "likes_patch_ok (UpdateStory i p) =
     (case p_likes p of None \<Rightarrow> True | Some v \<Rightarrow> nonneg_int v)"
| "likes_patch_ok _ = True"

text \<open>Every comment belongs to a story of the collection.\<close>

definition no_orphans :: "state \<Rightarrow> bool" where
  "no_orphans st =
     list_all (\<lambda>c. list_ex (\<lambda>s. s_id s = c_storyId c) (stories st)) (comments st)"

text \<open>The two error answers a handler gives on bad input.\<close>

fun rejected :: "error + 'a \<Rightarrow> bool" where
  "rejected (Inl ValidationError) = True"
| "rejected (Inl NotFound) = True"
| "rejected _ = False"

subsection \<open>Concrete states\<close>

text \<open>The server after a start without files.\<close>

definition seed_state :: "string \<Rightarrow> state" where
  "seed_state now =
     \<lparr>stories = db_stories (seed now), users = db_users (seed now),
      comments = db_comments (seed now), dataFile = None, activityFile = None\<rparr>"

text \<open>
  The second scenario of section 8: user \<^verbatim>\<open>u1\<close> views \<^verbatim>\<open>s1\<close>, then two Fantasy
  stories and one Horror story are created.
\<close>

definition new_story :: "string \<Rightarrow> string \<Rightarrow> story_input" where
  "new_story t g =
     \<lparr>in_title = Some (JStr t), in_body = Some (JStr ''B''), in_authorId = Some (JStr ''u1''),
      in_genre = Some (JStr g)\<rparr>"

definition scenario :: state where
  "scenario =
     run [RecordActivity \<lparr>ai_userId = Some (JStr ''u1''),
                          ai_viewedStoryId = Some (JStr ''s1'')\<rparr> ''t1'',
          CreateStory (new_story ''F1'' ''Fantasy'') ''id1'' ''t2'',
          CreateStory (new_story ''F2'' ''Fantasy'') ''id2'' ''t3'',
          CreateStory (new_story ''H1'' ''Horror'') ''id3'' ''t4'']
       (seed_state ''t0'')"

text \<open>A \<^verbatim>\<open>data.json\<close> that holds the seed and a comment on a story it does not hold.\<close>

definition orphan_comment :: comment where
  "orphan_comment =
     \<lparr>c_id = ''c1'', c_storyId = ''gone'', c_authorId = JStr ''u1'', c_text = JStr ''hi'',
      c_createdAt = ''t0''\<rparr>"

definition orphan_doc :: json where
  "orphan_doc =
     db_json \<lparr>db_stories = db_stories (seed ''t0''), db_users = db_users (seed ''t0''),
              db_comments = [orphan_comment]\<rparr>"

definition orphan_state :: state where
  "orphan_state =
     \<lparr>stories = db_stories (seed ''t0''), users = db_users (seed ''t0''),
      comments = [orphan_comment], dataFile = Some orphan_doc, activityFile = None\<rparr>"

text \<open>The seed state beside a \<^verbatim>\<open>userActivity.json\<close> that exists and is empty.\<close>

definition empty_log_state :: state where
  "empty_log_state = (seed_state ''t0'')\<lparr>activityFile := Some []\<rparr>"

text \<open>The seed state after one comment on \<^verbatim>\<open>s1\<close>.\<close>

definition commented :: state where
  "commented =
     snd (createComment ''s1'' \<lparr>ci_authorId = Some (JStr ''u1''), ci_text = Some (JStr ''hi'')\<rparr>
            ''c1'' ''t1'' (seed_state ''t0''))"

text \<open>Request bodies used below.\<close>

definition orphan_input :: story_input where
  "orphan_input =
     \<lparr>in_title = Some (JStr ''T''), in_body = Some (JStr ''B''),
      in_authorId = Some (JStr ''nobody''), in_genre = None\<rparr>"

definition empty_comment :: comment_input where
  "empty_comment = \<lparr>ci_authorId = None, ci_text = Some (JStr [])\<rparr>"

definition likes_patch :: story_patch where
  "likes_patch = \<lparr>p_title = None, p_body = None, p_genre = None, p_likes = Some (JNum 10)\<rparr>"

definition infinite_patch :: story_patch where
  "infinite_patch =
     \<lparr>p_title = None, p_body = None, p_genre = None, p_likes = Some (JInf True)\<rparr>"

definition negative_patch :: story_patch where
  "negative_patch =
     \<lparr>p_title = None, p_body = None, p_genre = None, p_likes = Some (JNum (- 1))\<rparr>"

section \<open>Properties\<close>

subsection \<open>Lists\<close>

lemma length_filter_same: "length (filter P xs) = length xs \<longleftrightarrow> (\<forall>x\<in>set xs. P x)"
proof (induction xs)
  case Nil
  then show ?case by simp
next
  case (Cons x xs)
  show ?case
  proof (cases "P x")
    case True
    with Cons show ?thesis by simp
  next
    case False
    have "length (filter P xs) \<le> length xs" by (rule length_filter_le)
    then have "length (filter P xs) \<noteq> Suc (length xs)" by arith
    with False show ?thesis by simp
  qed
qed

lemma filter_same: "length (filter P xs) = length xs \<Longrightarrow> filter P xs = xs"
  by (simp add: length_filter_same filter_id_conv)

lemma find_absent: "find P xs = None \<longleftrightarrow> (\<forall>x\<in>set xs. \<not> P x)"
  by (induction xs) auto

lemma findIndex_None: "findIndex p xs = None \<longleftrightarrow> (\<forall>x\<in>set xs. \<not> p x)"
  by (induction xs) auto

lemma findIndex_Some:
  "findIndex p xs = Some i \<Longrightarrow> i < length xs \<and> p (xs ! i)"
  by (induction xs arbitrary: i) (auto split: if_splits)

lemma findIndex_present:
  "i \<in> s_id ` set ss \<Longrightarrow> \<exists>idx. findIndex (\<lambda>s. s_id s = i) ss = Some idx"
  by (cases "findIndex (\<lambda>s. s_id s = i) ss") (auto simp: findIndex_None)

lemma list_all_update:
  "list_all P xs \<Longrightarrow> P y \<Longrightarrow> list_all P (xs[i := y])"
  by (induction xs arbitrary: i) (auto split: nat.splits)

lemma list_all_nth: "list_all P xs \<Longrightarrow> i < length xs \<Longrightarrow> P (xs ! i)"
  by (simp add: list_all_length)

lemma ids_update:
  "i < length xs \<Longrightarrow> s_id y = s_id (xs ! i) \<Longrightarrow> s_id ` set (xs[i := y]) = s_id ` set xs"
proof (induction xs arbitrary: i)
  case Nil
  then show ?case by simp
next
  case (Cons x xs)
  then show ?case by (cases i) auto
qed


lemma present_cases: "present v \<longleftrightarrow> (\<exists>x. v = Some x \<and> truthy x)"
  by (cases v) auto

subsection \<open>Persistence\<close>

lemma json_story_inv: "json_story (story_json s) = Some s"
  by (simp add: json_story_def story_json_def)

lemma json_user_inv: "json_user (user_json u) = Some u"
  by (cases "u_email u"; cases "u_avatarUrl u")
    (simp_all add: json_user_def user_json_def opt_field_def)

lemma json_comment_inv: "json_comment (comment_json c) = Some c"
  by (simp add: json_comment_def comment_json_def)

lemma mapM_option_inv: "(\<And>x. f (g x) = Some x) \<Longrightarrow> mapM_option f (map g xs) = Some xs"
  by (induction xs) simp_all

lemma json_db_inv: "json_db (db_json d) = Some d"
  by (simp add: json_db_def db_json_def mapM_option_inv json_story_inv json_user_inv
      json_comment_inv)

lemma truthy_db_json: "truthy (db_json d)"
  by (simp add: db_json_def)

lemma load_db_written: "load_db now (Some (db_json d)) = Some d"
  by (simp add: load_db_def truthy_db_json json_db_inv)

lemma written_finite: "finite_json v \<Longrightarrow> written v = v"
proof (induction v)
  case (JArr xs)
  then have "map written xs = xs"
    by (simp add: list_all_iff map_idI)
  then show ?case by simp
next
  case (JObj kvs)
  have "(fst kv, written (snd kv)) = kv" if "kv \<in> set kvs" for kv
  proof -
    from that JObj.prems have "finite_json (snd kv)" by (simp add: list_all_iff)
    moreover have "snd kv \<in> Basic_BNFs.snds kv" by (cases kv) simp
    ultimately have "written (snd kv) = snd kv" using JObj.IH that by blast
    then show ?thesis by (cases kv) simp
  qed
  then have "map (\<lambda>kv. (fst kv, written (snd kv))) kvs = kvs"
    by (simp add: map_idI)
  then show ?case by simp
qed simp_all

lemma written_story: "finite_story s \<Longrightarrow> written (story_json s) = story_json s"
  by (simp add: finite_story_def story_json_def written_finite)

lemma written_user: "finite_user u \<Longrightarrow> written (user_json u) = user_json u"
  by (cases "u_email u"; cases "u_avatarUrl u")
    (simp_all add: finite_user_def user_json_def opt_field_def written_finite)

lemma written_comment: "finite_comment c \<Longrightarrow> written (comment_json c) = comment_json c"
  by (simp add: finite_comment_def comment_json_def written_finite)

lemma written_db:
  assumes "list_all finite_story (db_stories d)" "list_all finite_user (db_users d)"
    "list_all finite_comment (db_comments d)"
  shows "written (db_json d) = db_json d"
proof -
  have "map (written \<circ> story_json) (db_stories d) = map story_json (db_stories d)"
    using assms(1) by (simp add: list_all_iff written_story)
  moreover have "map (written \<circ> user_json) (db_users d) = map user_json (db_users d)"
    using assms(2) by (simp add: list_all_iff written_user)
  moreover have "map (written \<circ> comment_json) (db_comments d) = map comment_json (db_comments d)"
    using assms(3) by (simp add: list_all_iff written_comment)
  ultimately show ?thesis by (simp add: db_json_def)
qed

text \<open>
  Claim C1, as the code has it.  For every state of the store that holds no infinity,
  what \<^verbatim>\<open>saveDB\<close> writes loads back as the same three collections: the same stories,
  users and comments with the same ids and field values, whatever else the collections
  hold (the seed is not substituted, not even for three empty collections).  The
  written objects carry no \<^verbatim>\<open>authorName\<close>: that field exists in responses only.  A
  server started on the written file is in the state the writing server was in.
\<close>

theorem saveDB_load_roundtrip:
  assumes "finite_state st"
  shows "load_db now (dataFile (saveDB st)) =
     Some \<lparr>db_stories = stories st, db_users = users st, db_comments = comments st\<rparr>
   \<and> boot now (dataFile (saveDB st)) (activityFile st) = Some (saveDB st)"
proof -
  let ?d = "\<lparr>db_stories = stories st, db_users = users st, db_comments = comments st\<rparr>"
  from assms have "written (db_json ?d) = db_json ?d"
    by (intro written_db) (simp_all add: finite_state_def)
  then have written: "dataFile (saveDB st) = Some (db_json ?d)"
    by (simp add: saveDB_def)
  have load: "load_db now (dataFile (saveDB st)) = Some ?d"
    unfolding written by (rule load_db_written)
  have "boot now (dataFile (saveDB st)) (activityFile st) = Some (saveDB st)"
    unfolding boot_def load using written by (simp add: saveDB_def)
  with load show ?thesis by simp
qed

theorem saveDB_load_roundtrip_witness:
  "finite_state scenario
   \<and> load_db ''t9'' (dataFile (saveDB scenario)) =
     Some \<lparr>db_stories = stories scenario, db_users = users scenario,
           db_comments = comments scenario\<rparr>
   \<and> length (stories scenario) = 4"
proof -
  have "length (stories scenario) = 4" by code_simp
  moreover have f: "finite_state scenario" by code_simp
  ultimately show ?thesis
    using saveDB_load_roundtrip [OF f, of "''t9''"] by simp
qed

text \<open>
  Claim C1 as stated fails: after \<^verbatim>\<open>PUT /api/stories/s1\<close> with the body
  \<^verbatim>\<open>{"likes": 1e999}\<close> on the seed state the story's likes are \<^verbatim>\<open>Infinity\<close>, the
  file holds \<^verbatim>\<open>null\<close> in their place, and \<^verbatim>\<open>null\<close> is what loads back.
\<close>

theorem saveDB_infinity_counterexample:
  "map s_likes (stories (snd (updateStory ''s1'' infinite_patch (seed_state ''t0'')))) = [JInf True]
   \<and> map_option (map s_likes \<circ> db_stories)
        (load_db ''t1'' (dataFile (saveDB (snd (updateStory ''s1'' infinite_patch (seed_state ''t0''))))))
      = Some [JNull]"
  by code_simp

text \<open>
  The states the amended claim covers include every state reached from the seed by
  requests whose bodies hold no infinity.
\<close>

lemma finite_plus_one: "finite_json v \<Longrightarrow> finite_json (plus_one v)"
  by (cases v) simp_all

lemma finite_or_empty: "finite_opt v \<Longrightarrow> finite_json (or_empty v)"
  by (cases v) simp_all

lemma finite_apply_patch:
  "finite_story s \<Longrightarrow> finite_request (UpdateStory i p) \<Longrightarrow> finite_story (apply_patch p s)"
  by (auto simp: finite_story_def apply_patch_def Let_def split: option.splits)

lemma finite_createStory:
  "finite_state st \<Longrightarrow> finite_request (CreateStory inp uuid now)
   \<Longrightarrow> finite_state (snd (createStory inp uuid now st))"
  by (auto simp: createStory_def finite_state_def finite_story_def saveDB_def Let_def
      finite_or_empty split: option.splits)

lemma finite_updateStory:
  assumes "finite_state st" and "finite_request (UpdateStory i p)"
  shows "finite_state (snd (updateStory i p st))"
proof (cases "findIndex (\<lambda>s. s_id s = i) (stories st)")
  case None
  with assms show ?thesis by (simp add: updateStory_def)
next
  case (Some idx)
  then have lt: "idx < length (stories st)" using findIndex_Some by blast
  from assms(1) have all: "list_all finite_story (stories st)" by (simp add: finite_state_def)
  from all lt have "finite_story (stories st ! idx)" by (rule list_all_nth)
  then have "finite_story (apply_patch p (stories st ! idx))"
    using assms(2) by (rule finite_apply_patch)
  with all have "list_all finite_story ((stories st)[idx := apply_patch p (stories st ! idx)])"
    by (rule list_all_update)
  with assms(1) show ?thesis
    by (simp add: updateStory_def Some Let_def saveDB_def finite_state_def)
qed

lemma finite_likeStory:
  assumes "finite_state st"
  shows "finite_state (snd (likeStory i st))"
proof (cases "findIndex (\<lambda>s. s_id s = i) (stories st)")
  case None
  with assms show ?thesis by (simp add: likeStory_def)
next
  case (Some idx)
  then have lt: "idx < length (stories st)" using findIndex_Some by blast
  from assms have all: "list_all finite_story (stories st)" by (simp add: finite_state_def)
  from all lt have "finite_story (stories st ! idx)" by (rule list_all_nth)
  then have "finite_story ((stories st ! idx)\<lparr>s_likes := plus_one (s_likes (stories st ! idx))\<rparr>)"
    by (simp add: finite_story_def finite_plus_one)
  with all have "list_all finite_story
      ((stories st)[idx := (stories st ! idx)\<lparr>s_likes := plus_one (s_likes (stories st ! idx))\<rparr>])"
    by (rule list_all_update)
  with assms show ?thesis
    by (simp add: likeStory_def Some Let_def saveDB_def finite_state_def)
qed

lemma finite_deleteStory: "finite_state st \<Longrightarrow> finite_state (snd (deleteStory i st))"
  by (auto simp: deleteStory_def finite_state_def saveDB_def Let_def list_all_iff)

lemma finite_createComment:
  "finite_state st \<Longrightarrow> finite_request (CreateComment i inp uuid now)
   \<Longrightarrow> finite_state (snd (createComment i inp uuid now st))"
  by (auto simp: createComment_def finite_state_def finite_comment_def saveDB_def Let_def
      split: option.splits)

lemma finite_deleteComment: "finite_state st \<Longrightarrow> finite_state (snd (deleteComment i st))"
  by (auto simp: deleteComment_def finite_state_def saveDB_def Let_def list_all_iff)

lemma finite_recordActivity:
  "finite_state st \<Longrightarrow> finite_state (snd (recordActivity inp now st))"
  by (auto simp: recordActivity_def finite_state_def Let_def split: option.splits)

lemma finite_createUser:
  "finite_state st \<Longrightarrow> finite_request (CreateUser inp uuid)
   \<Longrightarrow> finite_state (snd (createUser inp uuid st))"
  by (auto simp: createUser_def finite_state_def finite_user_def saveDB_def Let_def
      finite_or_empty split: option.splits)

lemma handle_finite:
  "finite_state st \<Longrightarrow> finite_request r \<Longrightarrow> finite_state (snd (handle r st))"
proof (cases r)
  case (CreateStory inp uuid now)
  assume "finite_state st" "finite_request r"
  then show ?thesis
    using finite_createStory [of st inp uuid now] by (simp add: CreateStory reply_with_def)
next
  case (UpdateStory i p)
  assume "finite_state st" "finite_request r"
  then show ?thesis
    using finite_updateStory [of st i p] by (simp add: UpdateStory reply_with_def)
next
  case (CreateComment i inp uuid now)
  assume "finite_state st" "finite_request r"
  then show ?thesis
    using finite_createComment [of st i inp uuid now]
    by (simp add: CreateComment reply_with_def)
next
  case (CreateUser inp uuid)
  assume "finite_state st" "finite_request r"
  then show ?thesis
    using finite_createUser [of st inp uuid] by (simp add: CreateUser reply_with_def)
qed (simp_all add: reply_with_def finite_likeStory finite_deleteStory finite_deleteComment
      finite_recordActivity)

lemma run_finite:
  "finite_state st \<Longrightarrow> list_all finite_request rs \<Longrightarrow> finite_state (run rs st)"
  by (induction rs arbitrary: st) (simp_all add: handle_finite)

lemma seed_finite: "finite_state (seed_state now)"
  by (simp add: finite_state_def finite_story_def finite_user_def seed_state_def seed_def)

subsection \<open>Reading JSON text\<close>

text \<open>
  Every successful call of the reader consumes text, so the depth bound of
  \<open>JSON_parse\<close> is never the reason for a refusal: a larger bound reads the same.
\<close>

lemma skip_ws_length: "length (skip_ws s) \<le> length s"
  by (simp add: skip_ws_def length_dropWhile_le)

lemma skip_ws_Cons: "skip_ws s = c # cs \<Longrightarrow> length cs < length s"
  using skip_ws_length [of s] by simp

lemma parse_chars_consumes:
  "parse_chars acc s = Some (x, r) \<Longrightarrow> length r < length s"
proof (induction acc s rule: parse_chars.induct)
  case (1 acc)
  then show ?case by simp
next
  case (2 acc c cs)
  then show ?case
    by (auto split: if_splits list.splits option.splits) fastforce+
qed

lemma parse_number_consumes:
  "parse_number s = Some (v, r) \<Longrightarrow> length r < length s"
proof -
  assume a: "parse_number s = Some (v, r)"
  let ?s1 = "if s \<noteq> [] \<and> hd s = CHR ''-'' then tl s else s"
  from a have r: "r = dropWhile is_digit ?s1" and ne: "takeWhile is_digit ?s1 \<noteq> []"
    by (auto simp: parse_number_def Let_def split: if_splits)
  have "length (takeWhile is_digit ?s1) + length (dropWhile is_digit ?s1) = length ?s1"
    by (metis length_append takeWhile_dropWhile_id)
  with ne have "length (dropWhile is_digit ?s1) < length ?s1"
    by (cases "takeWhile is_digit ?s1") auto
  moreover have "length ?s1 \<le> length s" by simp
  ultimately show ?thesis using r by simp
qed


lemma parse_value_Suc_consumes:
  assumes mem: "\<And>acc s kvs r. parse_members n acc s = Some (kvs, r) \<Longrightarrow> length r < length s"
    and el: "\<And>acc s xs r. parse_elems n acc s = Some (xs, r) \<Longrightarrow> length r < length s"
    and res: "parse_value (Suc n) s = Some (v, r)"
  shows "length r < length s"
proof (cases "skip_ws s")
  case Nil
  with res show ?thesis by simp
next
  case (Cons c cs)
  then have cs: "length cs < length s" by (rule skip_ws_Cons)
  consider (obj) "c = CHR ''{''" | (arr) "c \<noteq> CHR ''{''" "c = CHR ''[''"
    | (str) "c \<noteq> CHR ''{''" "c \<noteq> CHR ''[''" "c = CHR 0x22"
    | (other) "c \<noteq> CHR ''{''" "c \<noteq> CHR ''[''" "c \<noteq> CHR 0x22"
    by blast
  then show ?thesis
  proof cases
    case obj
    show ?thesis
    proof (cases "skip_ws cs")
      case Nil
      with res Cons obj show ?thesis by simp
    next
      case (Cons d r0)
      then have r0: "length r0 < length cs" by (rule skip_ws_Cons)
      show ?thesis
      proof (cases "d = CHR ''}''")
        case True
        with res \<open>skip_ws s = c # cs\<close> obj Cons have "r = r0" by simp
        with r0 cs show ?thesis by simp
      next
        case False
        with res \<open>skip_ws s = c # cs\<close> obj Cons obtain kvs
          where "parse_members n [] cs = Some (kvs, r)"
          by auto
        then have "length r < length cs" by (rule mem)
        with cs show ?thesis by simp
      qed
    qed
  next
    case arr
    show ?thesis
    proof (cases "skip_ws cs")
      case Nil
      with res Cons arr show ?thesis by simp
    next
      case (Cons d r0)
      then have r0: "length r0 < length cs" by (rule skip_ws_Cons)
      show ?thesis
      proof (cases "d = CHR '']''")
        case True
        with res \<open>skip_ws s = c # cs\<close> arr Cons have "r = r0" by simp
        with r0 cs show ?thesis by simp
      next
        case False
        with res \<open>skip_ws s = c # cs\<close> arr Cons obtain xs
          where "parse_elems n [] cs = Some (xs, r)"
          by auto
        then have "length r < length cs" by (rule el)
        with cs show ?thesis by simp
      qed
    qed
  next
    case str
    with res Cons obtain x where "parse_chars [] cs = Some (x, r)"
      by auto
    then have "length r < length cs" by (rule parse_chars_consumes)
    with cs show ?thesis by simp
  next
    case other
    from res Cons other have
      "r = drop 4 (c # cs) \<or> r = drop 5 (c # cs) \<or> parse_number (c # cs) = Some (v, r)"
      by (auto split: if_splits)
    then have "length r < Suc (length cs)"
      using parse_number_consumes [of "c # cs" v r] by auto
    with cs show ?thesis by simp
  qed
qed


lemma parse_elems_Suc_consumes:
  assumes val: "\<And>s v r. parse_value n s = Some (v, r) \<Longrightarrow> length r < length s"
    and el: "\<And>acc s xs r. parse_elems n acc s = Some (xs, r) \<Longrightarrow> length r < length s"
    and res: "parse_elems (Suc n) acc s = Some (xs, r)"
  shows "length r < length s"
proof -
  from res obtain v r1 where v: "parse_value n s = Some (v, r1)"
    by (auto split: option.splits)
  then have r1: "length r1 < length s" by (rule val)
  from res v obtain d r' where d: "skip_ws r1 = d # r'"
    by (auto split: list.splits)
  then have r': "length r' < length r1" by (rule skip_ws_Cons)
  from res v d have "parse_elems n (acc @ [v]) r' = Some (xs, r) \<or> r = r'"
    by (auto split: if_splits)
  then have "length r \<le> length r'"
    using el [of "acc @ [v]" r' xs r] by auto
  with r' r1 show ?thesis by simp
qed

lemma parse_members_Suc_consumes:
  assumes val: "\<And>s v r. parse_value n s = Some (v, r) \<Longrightarrow> length r < length s"
    and mem: "\<And>acc s kvs r. parse_members n acc s = Some (kvs, r) \<Longrightarrow> length r < length s"
    and res: "parse_members (Suc n) acc s = Some (kvs, r)"
  shows "length r < length s"
proof -
  from res obtain q s1 where q: "skip_ws s = q # s1" "q = CHR 0x22"
    by (auto split: list.splits if_splits)
  then have s1: "length s1 < length s" using skip_ws_Cons by blast
  from res q obtain k s2 where k: "parse_chars [] s1 = Some (k, s2)"
    by (auto split: option.splits)
  then have s2: "length s2 < length s1" by (rule parse_chars_consumes)
  from res q k obtain col s3 where col: "skip_ws s2 = col # s3" "col = CHR '':''"
    by (auto split: list.splits if_splits)
  then have s3: "length s3 < length s2" using skip_ws_Cons by blast
  from res q k col obtain v r1 where v: "parse_value n s3 = Some (v, r1)"
    by (auto split: option.splits)
  then have r1: "length r1 < length s3" by (rule val)
  from res q k col v obtain d r' where d: "skip_ws r1 = d # r'"
    by (auto split: list.splits)
  then have r': "length r' < length r1" by (rule skip_ws_Cons)
  from res q k col v d have
    "parse_members n (AList.update k v acc) r' = Some (kvs, r) \<or> r = r'"
    by (auto split: if_splits)
  then have "length r \<le> length r'"
    using mem [of "AList.update k v acc" r' kvs r] by auto
  with r' r1 s3 s2 s1 show ?thesis by simp
qed

lemma parse_consumes:
  "(\<forall>s v r. parse_value n s = Some (v, r) \<longrightarrow> length r < length s)
   \<and> (\<forall>acc s xs r. parse_elems n acc s = Some (xs, r) \<longrightarrow> length r < length s)
   \<and> (\<forall>acc s kvs r. parse_members n acc s = Some (kvs, r) \<longrightarrow> length r < length s)"
proof (induction n)
  case 0
  show ?case by simp
next
  case (Suc n)
  have "length r < length s" if "parse_value (Suc n) s = Some (v, r)" for s v r
    using Suc that by (intro parse_value_Suc_consumes [of n s v r]) blast+
  moreover have "length r < length s" if "parse_elems (Suc n) acc s = Some (xs, r)"
    for acc s xs r
    using Suc that by (intro parse_elems_Suc_consumes [of n acc s xs r]) blast+
  moreover have "length r < length s" if "parse_members (Suc n) acc s = Some (kvs, r)"
    for acc s kvs r
    using Suc that by (intro parse_members_Suc_consumes [of n acc s kvs r]) blast+
  ultimately show ?case by blast
qed

lemma parse_value_consumes: "parse_value n s = Some (v, r) \<Longrightarrow> length r < length s"
  using parse_consumes by blast


lemma parse_value_Suc_stable:
  assumes mem: "\<And>acc s. 2 * length s + 2 \<le> n
      \<Longrightarrow> parse_members (Suc n) acc s = parse_members n acc s"
    and el: "\<And>acc s. 2 * length s + 2 \<le> n
      \<Longrightarrow> parse_elems (Suc n) acc s = parse_elems n acc s"
    and big: "2 * length s + 1 \<le> Suc n"
  shows "parse_value (Suc (Suc n)) s = parse_value (Suc n) s"
proof (cases "skip_ws s")
  case Nil
  show ?thesis
    unfolding parse_value.simps(2) Nil list.case by (rule refl)
next
  case (Cons c cs)
  then have "length cs < length s" by (rule skip_ws_Cons)
  with big have "2 * length cs + 2 \<le> n" by simp
  then have m: "parse_members (Suc n) [] cs = parse_members n [] cs"
    and e: "parse_elems (Suc n) [] cs = parse_elems n [] cs"
    by (rule mem, rule el)
  show ?thesis
    unfolding parse_value.simps(2) Cons list.case m e by (rule refl)
qed

lemma parse_elems_Suc_stable:
  assumes val: "\<And>s. 2 * length s + 1 \<le> n \<Longrightarrow> parse_value (Suc n) s = parse_value n s"
    and el: "\<And>acc s. 2 * length s + 2 \<le> n
      \<Longrightarrow> parse_elems (Suc n) acc s = parse_elems n acc s"
    and big: "2 * length s + 2 \<le> Suc n"
  shows "parse_elems (Suc (Suc n)) acc s = parse_elems (Suc n) acc s"
proof -
  from big have "2 * length s + 1 \<le> n" by simp
  then have v: "parse_value (Suc n) s = parse_value n s" by (rule val)
  show ?thesis
  proof (cases "parse_value n s")
    case None
    show ?thesis
      unfolding parse_elems.simps(2) [of "Suc n" acc s] parse_elems.simps(2) [of n acc s] v None option.case by (rule refl)
  next
    case (Some p)
    obtain x r1 where p: "p = (x, r1)" by (cases p)
    with Some have "length r1 < length s" using parse_value_consumes by blast
    show ?thesis
    proof (cases "skip_ws r1")
      case Nil
      show ?thesis
        unfolding parse_elems.simps(2) [of "Suc n" acc s] parse_elems.simps(2) [of n acc s] v Some p option.case prod.case Nil list.case
        by (rule refl)
    next
      case (Cons d r')
      then have "length r' < length r1" by (rule skip_ws_Cons)
      with \<open>length r1 < length s\<close> big have "2 * length r' + 2 \<le> n" by simp
      then have e: "parse_elems (Suc n) (acc @ [x]) r' = parse_elems n (acc @ [x]) r'"
        by (rule el)
      show ?thesis
        unfolding parse_elems.simps(2) [of "Suc n" acc s] parse_elems.simps(2) [of n acc s] v Some p option.case prod.case Cons list.case e
        by (rule refl)
    qed
  qed
qed

lemma parse_members_Suc_stable:
  assumes val: "\<And>s. 2 * length s + 1 \<le> n \<Longrightarrow> parse_value (Suc n) s = parse_value n s"
    and mem: "\<And>acc s. 2 * length s + 2 \<le> n
      \<Longrightarrow> parse_members (Suc n) acc s = parse_members n acc s"
    and big: "2 * length s + 2 \<le> Suc n"
  shows "parse_members (Suc (Suc n)) acc s = parse_members (Suc n) acc s"
proof (cases "skip_ws s")
  case Nil
  show ?thesis
    unfolding parse_members.simps(2) [of "Suc n" acc s] parse_members.simps(2) [of n acc s] Nil list.case by (rule refl)
next
  case q: (Cons q s1)
  then have s1: "length s1 < length s" by (rule skip_ws_Cons)
  show ?thesis
  proof (cases "parse_chars [] s1")
    case None
    show ?thesis
      unfolding parse_members.simps(2) [of "Suc n" acc s] parse_members.simps(2) [of n acc s] q list.case None option.case by (rule refl)
  next
    case (Some p)
    obtain k s2 where p: "p = (k, s2)" by (cases p)
    with Some have s2: "length s2 < length s1" using parse_chars_consumes by blast
    show ?thesis
    proof (cases "skip_ws s2")
      case Nil
      show ?thesis
        unfolding parse_members.simps(2) [of "Suc n" acc s] parse_members.simps(2) [of n acc s] q list.case Some p option.case prod.case Nil
        by (rule refl)
    next
      case col: (Cons col s3)
      then have s3: "length s3 < length s2" by (rule skip_ws_Cons)
      with s2 s1 big have "2 * length s3 + 1 \<le> n" by simp
      then have v: "parse_value (Suc n) s3 = parse_value n s3" by (rule val)
      show ?thesis
      proof (cases "parse_value n s3")
        case None
        show ?thesis
          unfolding parse_members.simps(2) [of "Suc n" acc s] parse_members.simps(2) [of n acc s] q list.case Some p option.case prod.case col v None
          by (rule refl)
      next
        case val3: (Some pv)
        obtain x r1 where pv: "pv = (x, r1)" by (cases pv)
        with val3 have r1: "length r1 < length s3" using parse_value_consumes by blast
        show ?thesis
        proof (cases "skip_ws r1")
          case Nil
          show ?thesis
            unfolding parse_members.simps(2) [of "Suc n" acc s] parse_members.simps(2) [of n acc s] q list.case Some p option.case prod.case col v
              val3 pv Nil
            by (rule refl)
        next
          case (Cons d r')
          then have "length r' < length r1" by (rule skip_ws_Cons)
          with r1 s3 s2 s1 big have "2 * length r' + 2 \<le> n" by simp
          then have m: "parse_members (Suc n) (AList.update k x acc) r'
              = parse_members n (AList.update k x acc) r'"
            by (rule mem)
          show ?thesis
            unfolding parse_members.simps(2) [of "Suc n" acc s] parse_members.simps(2) [of n acc s] q list.case Some p option.case prod.case col v
              val3 pv Cons m
            by (rule refl)
        qed
      qed
    qed
  qed
qed

lemma parse_stable:
  "(\<forall>s. 2 * length s + 1 \<le> n \<longrightarrow> parse_value (Suc n) s = parse_value n s)
   \<and> (\<forall>acc s. 2 * length s + 2 \<le> n \<longrightarrow> parse_elems (Suc n) acc s = parse_elems n acc s)
   \<and> (\<forall>acc s. 2 * length s + 2 \<le> n
        \<longrightarrow> parse_members (Suc n) acc s = parse_members n acc s)"
proof (induction n)
  case 0
  show ?case by simp
next
  case (Suc n)
  have "parse_value (Suc (Suc n)) s = parse_value (Suc n) s" if "2 * length s + 1 \<le> Suc n" for s
    using Suc that by (intro parse_value_Suc_stable) blast+
  moreover have "parse_elems (Suc (Suc n)) acc s = parse_elems (Suc n) acc s"
    if "2 * length s + 2 \<le> Suc n" for acc s
    using Suc that by (intro parse_elems_Suc_stable) blast+
  moreover have "parse_members (Suc (Suc n)) acc s = parse_members (Suc n) acc s"
    if "2 * length s + 2 \<le> Suc n" for acc s
    using Suc that by (intro parse_members_Suc_stable) blast+
  ultimately show ?case by blast
qed

lemma parse_value_fuel:
  "2 * length s + 2 \<le> n \<Longrightarrow> parse_value n s = parse_value (2 * length s + 2) s"
proof (induction n)
  case 0
  then show ?case by simp
next
  case (Suc n)
  show ?case
  proof (cases "2 * length s + 2 \<le> n")
    case True
    then have "parse_value (Suc n) s = parse_value n s"
      using parse_stable [of n] by simp
    with Suc.IH True show ?thesis by simp
  next
    case False
    with Suc.prems have "Suc n = 2 * length s + 2" by simp
    then show ?thesis by simp
  qed
qed

subsection \<open>Recommendation\<close>

lemma take_filter_first_matching: "take n (filter p xs) = first_matching n p xs"
  by (induction n p xs rule: first_matching.induct) simp_all

lemma eq_str_iff: "eq_str v s \<longleftrightarrow> v = Some (JStr s)"
  by (cases "(v, s)" rule: eq_str.cases) auto

text \<open>Every record of a history is an object whose \<^verbatim>\<open>userId\<close> is the user's id.\<close>

lemma filter_user_objects:
  "filter_user u xs = Inr r \<Longrightarrow> a \<in> set r
   \<Longrightarrow> \<exists>kvs. a = JObj kvs \<and> map_of kvs ''userId'' = Some (JStr u)"
proof (induction xs arbitrary: r)
  case Nil
  then show ?case by simp
next
  case (Cons x xs)
  from Cons.prems(1) obtain p r' where
    p: "get_prop x ''userId'' = Inr p" and r': "filter_user u xs = Inr r'"
    and r: "r = (if eq_str p u then x # r' else r')"
    by (auto split: sum.splits)
  show ?case
  proof (cases "a \<in> set r'")
    case True
    with Cons.IH r' show ?thesis by blast
  next
    case False
    with Cons.prems(2) r have ax: "a = x" and e: "eq_str p u"
      by (auto split: if_splits)
    from e have "p = Some (JStr u)" by (simp add: eq_str_iff)
    with p ax show ?thesis by (cases x) auto
  qed
qed

lemma getUserHistory_objects:
  "getUserHistory u st = Inr h \<Longrightarrow> a \<in> set h
   \<Longrightarrow> \<exists>kvs. a = JObj kvs \<and> map_of kvs ''userId'' = Some (JStr u)"
  by (auto simp: getUserHistory_def split: option.splits sum.splits
      dest: filter_user_objects)

text \<open>
  Claim C2.  For every user id and state, whenever \<^verbatim>\<open>getUserHistory\<close> returns a
  history, \<^verbatim>\<open>recommend\<close> returns what section 4.3 describes for that history
  (\<open>recommend_spec\<close>): nothing for an empty history; otherwise the story viewed in the
  last record is looked up, nothing is returned when it no longer exists, and else the
  first at most 3 stories of its genre, itself excluded, in collection order.  (When
  \<^verbatim>\<open>getUserHistory\<close> throws, the answer is the 500 of the global error handler.)
\<close>

theorem recommend_refines_spec:
  "recommend userId st =
     (case getUserHistory userId st of
        Inl e \<Rightarrow> Inl InternalError
      | Inr history \<Rightarrow> Inr (recommend_spec (stories st) history))"
proof (cases "getUserHistory userId st")
  case (Inl e)
  then show ?thesis by (simp add: recommend_def)
next
  case (Inr h)
  show ?thesis
  proof (cases "h = []")
    case True
    with Inr show ?thesis by (simp add: recommend_def recommend_spec_def)
  next
    case False
    then have "last h \<in> set h" by simp
    with Inr obtain kvs where kvs: "last h = JObj kvs"
      using getUserHistory_objects by blast
    have nth: "h ! (length h - Suc 0) = last h"
      using False by (simp add: last_conv_nth)
    have vid: "get_prop (last h) ''viewedStoryId'' = Inr (viewed_id (last h))"
      by (simp add: kvs viewed_id_def)
    show ?thesis
      using Inr False
      by (simp add: recommend_def recommend_spec_def nth vid eq_str_iff
          take_filter_first_matching split: option.splits)
  qed
qed

theorem recommend_refines_spec_witness:
  "recommend ''u1'' scenario =
     Inr [\<lparr>s_id = ''id2'', s_title = JStr ''F2'', s_body = JStr ''B'',
            s_authorId = JStr ''u1'', s_genre = JStr ''Fantasy'', s_likes = JNum 0,
            s_createdAt = ''t3''\<rparr>,
          \<lparr>s_id = ''id1'', s_title = JStr ''F1'', s_body = JStr ''B'',
            s_authorId = JStr ''u1'', s_genre = JStr ''Fantasy'', s_likes = JNum 0,
            s_createdAt = ''t2''\<rparr>]"
proof -
  let ?h = "[JObj [(''userId'', JStr ''u1''), (''viewedStoryId'', JStr ''s1''),
                   (''timestamp'', JStr ''t1'')]]"
  have h: "getUserHistory ''u1'' scenario = Inr ?h"
    by code_simp
  have r: "recommend_spec (stories scenario) ?h =
     [\<lparr>s_id = ''id2'', s_title = JStr ''F2'', s_body = JStr ''B'',
        s_authorId = JStr ''u1'', s_genre = JStr ''Fantasy'', s_likes = JNum 0,
        s_createdAt = ''t3''\<rparr>,
      \<lparr>s_id = ''id1'', s_title = JStr ''F1'', s_body = JStr ''B'',
        s_authorId = JStr ''u1'', s_genre = JStr ''Fantasy'', s_likes = JNum 0,
        s_createdAt = ''t2''\<rparr>]"
    by code_simp
  show ?thesis
    using recommend_refines_spec [of "''u1''" scenario] by (simp add: h r)
qed

subsection \<open>Deleting a story\<close>

text \<open>
  Claim C3.  For every story id \<open>X\<close> of the collection, deleting \<open>X\<close> succeeds,
  removes exactly the stories with that id and exactly the comments whose
  \<^verbatim>\<open>storyId\<close> is \<open>X\<close>, so that no story and no comment of \<open>X\<close> is left, and listing
  the comments of \<open>X\<close> afterwards fails with NotFound.  Deleting an id that is not in the
  collection fails with NotFound.
\<close>

theorem deleteStory_cascade:
  "(X \<in> s_id ` set (stories st) \<longrightarrow>
      fst (deleteStory X st) = Inr ()
      \<and> stories (snd (deleteStory X st)) = filter (\<lambda>s. s_id s \<noteq> X) (stories st)
      \<and> comments (snd (deleteStory X st)) = filter (\<lambda>c. c_storyId c \<noteq> X) (comments st)
      \<and> X \<notin> s_id ` set (stories (snd (deleteStory X st)))
      \<and> X \<notin> c_storyId ` set (comments (snd (deleteStory X st)))
      \<and> listComments X (snd (deleteStory X st)) = Inl NotFound)
   \<and> (X \<notin> s_id ` set (stories st) \<longrightarrow> fst (deleteStory X st) = Inl NotFound)"
proof (cases "X \<in> s_id ` set (stories st)")
  case True
  then have len: "length (filter (\<lambda>s. s_id s \<noteq> X) (stories st)) \<noteq> length (stories st)"
    by (auto simp: length_filter_same)
  have res: "deleteStory X st =
      (Inr (), saveDB (st\<lparr>stories := filter (\<lambda>s. s_id s \<noteq> X) (stories st),
                           comments := filter (\<lambda>c. c_storyId c \<noteq> X) (comments st)\<rparr>))"
    using len by (simp add: deleteStory_def Let_def)
  have gone: "find (\<lambda>s. s_id s = X) (filter (\<lambda>s. s_id s \<noteq> X) (stories st)) = None"
    by (simp add: find_absent)
  show ?thesis
    using True by (auto simp: res saveDB_def listComments_def gone)
next
  case False
  then have "length (filter (\<lambda>s. s_id s \<noteq> X) (stories st)) = length (stories st)"
    by (auto simp: length_filter_same)
  with False show ?thesis by (simp add: deleteStory_def Let_def)
qed

theorem deleteStory_cascade_witness:
  "''s1'' \<in> s_id ` set (stories commented) \<and> comments commented \<noteq> []
   \<and> fst (deleteStory ''s1'' commented) = Inr ()
   \<and> stories (snd (deleteStory ''s1'' commented)) = []
   \<and> comments (snd (deleteStory ''s1'' commented)) = []
   \<and> listComments ''s1'' (snd (deleteStory ''s1'' commented)) = Inl NotFound
   \<and> ''zz'' \<notin> s_id ` set (stories commented)
   \<and> fst (deleteStory ''zz'' commented) = Inl NotFound"
proof -
  have st: "stories commented = db_stories (seed ''t0'')"
    and cs: "comments commented = [\<lparr>c_id = ''c1'', c_storyId = ''s1'', c_authorId = JStr ''u1'', c_text = JStr ''hi'', c_createdAt = ''t1''\<rparr>]"
    by code_simp+
  have a: "''s1'' \<in> s_id ` set (stories commented)" and b: "''zz'' \<notin> s_id ` set (stories commented)"
    by (simp_all add: st seed_def)
  show ?thesis
    using deleteStory_cascade [of "''s1''" commented] deleteStory_cascade [of "''zz''" commented] a b
    by (simp add: st cs seed_def)
qed

subsection \<open>Creating a story\<close>

lemma createStory_valid:
  assumes "in_title inp = Some t" "in_body inp = Some b" "in_authorId inp = Some a"
    and "truthy t" "truthy b" "truthy a"
  shows "createStory inp uuid now st =
     (let newStory = \<lparr>s_id = uuid, s_title = t, s_body = b, s_authorId = a,
                       s_genre = or_empty (in_genre inp), s_likes = JNum 0, s_createdAt = now\<rparr>
      in (Inr (enrich_story (users st) newStory), saveDB (st\<lparr>stories := newStory # stories st\<rparr>)))"
  using assms by (simp add: createStory_def Let_def saveDB_def)

lemma mem_createStory_valid:
  assumes "in_title inp = Some t" "in_body inp = Some b" "in_authorId inp = Some a"
    and "truthy t" "truthy b" "truthy a"
  shows "mem_createStory inp uuid now st =
     (let newStory = \<lparr>s_id = uuid, s_title = t, s_body = b, s_authorId = a,
                       s_genre = or_empty (in_genre inp), s_likes = JNum 0, s_createdAt = now\<rparr>
      in (Inr newStory, st\<lparr>m_stories := newStory # m_stories st\<rparr>))"
  using assms by (simp add: mem_createStory_def Let_def)




text \<open>
  Claim C9, as the code has it.  Story creation never looks the author up before it
  creates: every request with non-empty title, body and authorId succeeds and stores
  the story with the authorId it was given, also when no user has that id; the
  file-backed server then answers with the author name \<^verbatim>\<open>Unknown\<close>.
\<close>

theorem createStory_unknown_author:
  assumes valid: "present (in_title inp)" "present (in_body inp)" "present (in_authorId inp)"
    and nobody: "\<forall>u\<in>set (users st). in_authorId inp \<noteq> Some (JStr (u_id u))"
  shows "(\<exists>out st'. createStory inp uuid now st = (Inr out, st')
            \<and> so_story out \<in> set (stories st')
            \<and> Some (s_authorId (so_story out)) = in_authorId inp
            \<and> so_authorName out = JStr ''Unknown'')
       \<and> (\<exists>s mst'. mem_createStory inp uuid now mst = (Inr s, mst')
            \<and> s \<in> set (m_stories mst')
            \<and> Some (s_authorId s) = in_authorId inp)"
proof -
  from valid obtain t b a where
    f: "in_title inp = Some t" "in_body inp = Some b" "in_authorId inp = Some a"
    and tr: "truthy t" "truthy b" "truthy a"
    by (auto simp: present_cases)
  from nobody f(3) have "find (\<lambda>u. JStr (u_id u) = a) (users st) = None"
    by (auto simp: find_absent)
  then have unknown: "authorName (users st) a = JStr ''Unknown''"
    by (simp add: authorName_def)
  show ?thesis
    using createStory_valid [OF f tr, of uuid now st] mem_createStory_valid [OF f tr, of uuid now mst]
    by (simp add: Let_def enrich_story_def unknown f saveDB_def)
qed

theorem createStory_unknown_author_witness:
  "map u_id (users (seed_state ''t0'')) = [''u1'']
   \<and> (\<exists>out st'. createStory orphan_input ''id1'' ''t1'' (seed_state ''t0'') = (Inr out, st')
          \<and> so_story out \<in> set (stories st')
          \<and> so_authorName out = JStr ''Unknown'')"
proof -
  have v: "present (in_title orphan_input)" "present (in_body orphan_input)"
    "present (in_authorId orphan_input)"
    by (simp_all add: orphan_input_def)
  have n: "\<forall>u\<in>set (users (seed_state ''t0'')). in_authorId orphan_input \<noteq> Some (JStr (u_id u))"
    by (simp add: seed_state_def seed_def orphan_input_def)
  have u: "map u_id (users (seed_state ''t0'')) = [''u1'']"
    by (simp add: seed_state_def seed_def)
  from createStory_unknown_author [OF v n, of "''id1''" "''t1''"] u show ?thesis
    by blast
qed

text \<open>
  Claim C9 as stated fails: on the seed state, whose only user is \<^verbatim>\<open>u1\<close>, a story
  whose authorId is \<^verbatim>\<open>nobody\<close> is created and stored.
\<close>

theorem createStory_dangling_author_counterexample:
  "map u_id (users (seed_state ''t0'')) = [''u1'']
   \<and> in_authorId orphan_input = Some (JStr ''nobody'')
   \<and> fst (createStory orphan_input ''id1'' ''t1'' (seed_state ''t0'')) =
       Inr \<lparr>so_story = \<lparr>s_id = ''id1'', s_title = JStr ''T'', s_body = JStr ''B'',
                         s_authorId = JStr ''nobody'', s_genre = JStr [], s_likes = JNum 0,
                         s_createdAt = ''t1''\<rparr>,
            so_authorName = JStr ''Unknown''\<rparr>
   \<and> map s_id (stories (snd (createStory orphan_input ''id1'' ''t1'' (seed_state ''t0'')))) =
       [''id1'', ''s1'']"
  by code_simp

subsection \<open>Creating a comment\<close>

text \<open>
  Claim C10.  In both servers, a comment for a story id that no story has is answered
  with NotFound whatever the body holds, also when authorId or text is missing or
  empty, and nothing changes; ValidationError is the answer when the story exists and
  a field is missing or empty, and only then.
\<close>

theorem createComment_story_first:
  "(i \<notin> s_id ` set (stories st) \<longrightarrow> createComment i inp uuid now st = (Inl NotFound, st))
   \<and> (i \<in> s_id ` set (stories st) \<and> \<not> (present (ci_authorId inp) \<and> present (ci_text inp))
        \<longrightarrow> createComment i inp uuid now st = (Inl ValidationError, st))
   \<and> (fst (createComment i inp uuid now st) = Inl ValidationError
        \<longrightarrow> i \<in> s_id ` set (stories st))
   \<and> (i \<notin> s_id ` set (m_stories mst)
        \<longrightarrow> mem_createComment i inp uuid now mst = (Inl NotFound, mst))
   \<and> (i \<in> s_id ` set (m_stories mst)
        \<and> \<not> (present (ci_authorId inp) \<and> present (ci_text inp))
        \<longrightarrow> mem_createComment i inp uuid now mst = (Inl ValidationError, mst))
   \<and> (fst (mem_createComment i inp uuid now mst) = Inl ValidationError
        \<longrightarrow> i \<in> s_id ` set (m_stories mst))"
proof -
  have absent: "find (\<lambda>s. s_id s = i) xs = None \<longleftrightarrow> i \<notin> s_id ` set xs" for xs :: "story list"
    by (auto simp: find_absent)
  have a: "i \<notin> s_id ` set (stories st) \<longrightarrow> createComment i inp uuid now st = (Inl NotFound, st)"
  proof
    assume "i \<notin> s_id ` set (stories st)"
    then have "find (\<lambda>s. s_id s = i) (stories st) = None" by (simp add: absent)
    then show "createComment i inp uuid now st = (Inl NotFound, st)"
      by (simp add: createComment_def)
  qed
  have b: "i \<in> s_id ` set (stories st) \<and> \<not> (present (ci_authorId inp) \<and> present (ci_text inp))
        \<longrightarrow> createComment i inp uuid now st = (Inl ValidationError, st)"
    by (cases "find (\<lambda>s. s_id s = i) (stories st)"; cases "ci_authorId inp"; cases "ci_text inp")
      (auto simp: createComment_def absent)
  have c: "fst (createComment i inp uuid now st) = Inl ValidationError
        \<longrightarrow> i \<in> s_id ` set (stories st)"
    using a by (cases "i \<in> s_id ` set (stories st)") auto
  have a': "i \<notin> s_id ` set (m_stories mst)
        \<longrightarrow> mem_createComment i inp uuid now mst = (Inl NotFound, mst)"
  proof
    assume "i \<notin> s_id ` set (m_stories mst)"
    then have "find (\<lambda>s. s_id s = i) (m_stories mst) = None" by (simp add: absent)
    then show "mem_createComment i inp uuid now mst = (Inl NotFound, mst)"
      by (simp add: mem_createComment_def)
  qed
  have b': "i \<in> s_id ` set (m_stories mst)
        \<and> \<not> (present (ci_authorId inp) \<and> present (ci_text inp))
        \<longrightarrow> mem_createComment i inp uuid now mst = (Inl ValidationError, mst)"
    by (cases "find (\<lambda>s. s_id s = i) (m_stories mst)"; cases "ci_authorId inp"; cases "ci_text inp")
      (auto simp: mem_createComment_def absent)
  have c': "fst (mem_createComment i inp uuid now mst) = Inl ValidationError
        \<longrightarrow> i \<in> s_id ` set (m_stories mst)"
    using a' by (cases "i \<in> s_id ` set (m_stories mst)") auto
  from a b c a' b' c' show ?thesis by blast
qed

theorem createComment_story_first_witness:
  "''zz'' \<notin> s_id ` set (stories (seed_state ''t0''))
   \<and> createComment ''zz'' empty_comment ''c1'' ''t1'' (seed_state ''t0'')
       = (Inl NotFound, seed_state ''t0'')
   \<and> ''s1'' \<in> s_id ` set (stories (seed_state ''t0''))
   \<and> \<not> (present (ci_authorId empty_comment) \<and> present (ci_text empty_comment))
   \<and> createComment ''s1'' empty_comment ''c1'' ''t1'' (seed_state ''t0'')
       = (Inl ValidationError, seed_state ''t0'')
   \<and> ''zz'' \<notin> s_id ` set (m_stories (mem_init ''t0''))
   \<and> mem_createComment ''zz'' empty_comment ''c1'' ''t1'' (mem_init ''t0'')
       = (Inl NotFound, mem_init ''t0'')
   \<and> ''s1'' \<in> s_id ` set (m_stories (mem_init ''t0''))
   \<and> mem_createComment ''s1'' empty_comment ''c1'' ''t1'' (mem_init ''t0'')
       = (Inl ValidationError, mem_init ''t0'')"
proof -
  have ids: "s_id ` set (stories (seed_state ''t0'')) = {''s1''}"
    "s_id ` set (m_stories (mem_init ''t0'')) = {''s1''}"
    by (simp_all add: seed_state_def mem_init_def seed_def)
  have e: "\<not> (present (ci_authorId empty_comment) \<and> present (ci_text empty_comment))"
    by (simp add: empty_comment_def)
  show ?thesis
    using createComment_story_first [of "''zz''" "seed_state ''t0''" empty_comment "''c1''" "''t1''" "mem_init ''t0''"]
      createComment_story_first [of "''s1''" "seed_state ''t0''" empty_comment "''c1''" "''t1''" "mem_init ''t0''"]
      e
    by (simp add: ids)
qed

subsection \<open>Updating a story\<close>

lemma apply_patch_fields:
  "s_title (apply_patch p s) = patched (p_title p) (s_title s)"
  "s_body (apply_patch p s) = patched (p_body p) (s_body s)"
  "s_genre (apply_patch p s) = patched (p_genre p) (s_genre s)"
  "s_likes (apply_patch p s) = patched (p_likes p) (s_likes s)"
  "s_id (apply_patch p s) = s_id s"
  "s_authorId (apply_patch p s) = s_authorId s"
  "s_createdAt (apply_patch p s) = s_createdAt s"
  by (simp_all add: apply_patch_def patched_def Let_def split: option.splits)

lemma mem_apply_patch_fields:
  "s_title (mem_apply_patch p s) = patched (p_title p) (s_title s)"
  "s_body (mem_apply_patch p s) = patched (p_body p) (s_body s)"
  "s_genre (mem_apply_patch p s) = patched (p_genre p) (s_genre s)"
  "s_likes (mem_apply_patch p s) = s_likes s"
  "s_id (mem_apply_patch p s) = s_id s"
  "s_authorId (mem_apply_patch p s) = s_authorId s"
  "s_createdAt (mem_apply_patch p s) = s_createdAt s"
  by (simp_all add: mem_apply_patch_def patched_def Let_def split: option.splits)

text \<open>
  Claim C6, as the code has it.  In both servers an update of an id that no story has
  fails with NotFound and changes nothing.  Otherwise the first story with the id is
  replaced by the returned one and no other element changes.  In the file-backed
  server each of title, body, genre and likes has the patch's value where the patch
  has the field and its stored value where it has not.  In the in-memory server that
  holds for title, body and genre, and likes keeps its stored value whatever the patch
  holds.  Id, authorId and createdAt never change.
\<close>

theorem updateStory_applies_patch:
  "(i \<notin> s_id ` set (stories st) \<longrightarrow> updateStory i p st = (Inl NotFound, st))
   \<and> (i \<in> s_id ` set (stories st) \<longrightarrow>
        (\<exists>idx out st'. findIndex (\<lambda>s. s_id s = i) (stories st) = Some idx
           \<and> updateStory i p st = (Inr out, st')
           \<and> stories st' = (stories st)[idx := so_story out]
           \<and> s_title (so_story out) = patched (p_title p) (s_title (stories st ! idx))
           \<and> s_body (so_story out) = patched (p_body p) (s_body (stories st ! idx))
           \<and> s_genre (so_story out) = patched (p_genre p) (s_genre (stories st ! idx))
           \<and> s_likes (so_story out) = patched (p_likes p) (s_likes (stories st ! idx))
           \<and> s_id (so_story out) = i
           \<and> s_authorId (so_story out) = s_authorId (stories st ! idx)
           \<and> s_createdAt (so_story out) = s_createdAt (stories st ! idx)))
   \<and> (i \<notin> s_id ` set (m_stories mst) \<longrightarrow> mem_updateStory i p mst = (Inl NotFound, mst))
   \<and> (i \<in> s_id ` set (m_stories mst) \<longrightarrow>
        (\<exists>idx s mst'. findIndex (\<lambda>s. s_id s = i) (m_stories mst) = Some idx
           \<and> mem_updateStory i p mst = (Inr s, mst')
           \<and> m_stories mst' = (m_stories mst)[idx := s]
           \<and> s_title s = patched (p_title p) (s_title (m_stories mst ! idx))
           \<and> s_body s = patched (p_body p) (s_body (m_stories mst ! idx))
           \<and> s_genre s = patched (p_genre p) (s_genre (m_stories mst ! idx))
           \<and> s_likes s = s_likes (m_stories mst ! idx)
           \<and> s_id s = i
           \<and> s_authorId s = s_authorId (m_stories mst ! idx)
           \<and> s_createdAt s = s_createdAt (m_stories mst ! idx)))"
proof -
  have a: "i \<notin> s_id ` set (stories st) \<longrightarrow> updateStory i p st = (Inl NotFound, st)"
  proof
    assume "i \<notin> s_id ` set (stories st)"
    then have "findIndex (\<lambda>s. s_id s = i) (stories st) = None"
      by (auto simp: findIndex_None)
    then show "updateStory i p st = (Inl NotFound, st)" by (simp add: updateStory_def)
  qed
  have b: "i \<in> s_id ` set (stories st) \<longrightarrow>
        (\<exists>idx out st'. findIndex (\<lambda>s. s_id s = i) (stories st) = Some idx
           \<and> updateStory i p st = (Inr out, st')
           \<and> stories st' = (stories st)[idx := so_story out]
           \<and> s_title (so_story out) = patched (p_title p) (s_title (stories st ! idx))
           \<and> s_body (so_story out) = patched (p_body p) (s_body (stories st ! idx))
           \<and> s_genre (so_story out) = patched (p_genre p) (s_genre (stories st ! idx))
           \<and> s_likes (so_story out) = patched (p_likes p) (s_likes (stories st ! idx))
           \<and> s_id (so_story out) = i
           \<and> s_authorId (so_story out) = s_authorId (stories st ! idx)
           \<and> s_createdAt (so_story out) = s_createdAt (stories st ! idx))"
  proof
    assume "i \<in> s_id ` set (stories st)"
    then obtain idx where idx: "findIndex (\<lambda>s. s_id s = i) (stories st) = Some idx"
      using findIndex_present by blast
    then have lt: "idx < length (stories st)" and hit: "s_id (stories st ! idx) = i"
      using findIndex_Some [OF idx] by simp_all
    let ?s = "apply_patch p (stories st ! idx)"
    have res: "updateStory i p st =
        (Inr (enrich_story (users st) ?s), saveDB (st\<lparr>stories := (stories st)[idx := ?s]\<rparr>))"
      using lt by (simp add: updateStory_def idx Let_def saveDB_def)
    show "\<exists>idx out st'. findIndex (\<lambda>s. s_id s = i) (stories st) = Some idx
           \<and> updateStory i p st = (Inr out, st')
           \<and> stories st' = (stories st)[idx := so_story out]
           \<and> s_title (so_story out) = patched (p_title p) (s_title (stories st ! idx))
           \<and> s_body (so_story out) = patched (p_body p) (s_body (stories st ! idx))
           \<and> s_genre (so_story out) = patched (p_genre p) (s_genre (stories st ! idx))
           \<and> s_likes (so_story out) = patched (p_likes p) (s_likes (stories st ! idx))
           \<and> s_id (so_story out) = i
           \<and> s_authorId (so_story out) = s_authorId (stories st ! idx)
           \<and> s_createdAt (so_story out) = s_createdAt (stories st ! idx)"
      using idx hit
      by (simp add: res enrich_story_def saveDB_def apply_patch_fields)
  qed
  have c: "i \<notin> s_id ` set (m_stories mst) \<longrightarrow> mem_updateStory i p mst = (Inl NotFound, mst)"
  proof
    assume "i \<notin> s_id ` set (m_stories mst)"
    then have "findIndex (\<lambda>s. s_id s = i) (m_stories mst) = None"
      by (auto simp: findIndex_None)
    then show "mem_updateStory i p mst = (Inl NotFound, mst)" by (simp add: mem_updateStory_def)
  qed
  have d: "i \<in> s_id ` set (m_stories mst) \<longrightarrow>
        (\<exists>idx s mst'. findIndex (\<lambda>s. s_id s = i) (m_stories mst) = Some idx
           \<and> mem_updateStory i p mst = (Inr s, mst')
           \<and> m_stories mst' = (m_stories mst)[idx := s]
           \<and> s_title s = patched (p_title p) (s_title (m_stories mst ! idx))
           \<and> s_body s = patched (p_body p) (s_body (m_stories mst ! idx))
           \<and> s_genre s = patched (p_genre p) (s_genre (m_stories mst ! idx))
           \<and> s_likes s = s_likes (m_stories mst ! idx)
           \<and> s_id s = i
           \<and> s_authorId s = s_authorId (m_stories mst ! idx)
           \<and> s_createdAt s = s_createdAt (m_stories mst ! idx))"
  proof
    assume "i \<in> s_id ` set (m_stories mst)"
    then obtain idx where idx: "findIndex (\<lambda>s. s_id s = i) (m_stories mst) = Some idx"
      using findIndex_present by blast
    then have lt: "idx < length (m_stories mst)" and hit: "s_id (m_stories mst ! idx) = i"
      using findIndex_Some [OF idx] by simp_all
    let ?s = "mem_apply_patch p (m_stories mst ! idx)"
    have res: "mem_updateStory i p mst = (Inr ?s, mst\<lparr>m_stories := (m_stories mst)[idx := ?s]\<rparr>)"
      using lt by (simp add: mem_updateStory_def idx Let_def)
    show "\<exists>idx s mst'. findIndex (\<lambda>s. s_id s = i) (m_stories mst) = Some idx
           \<and> mem_updateStory i p mst = (Inr s, mst')
           \<and> m_stories mst' = (m_stories mst)[idx := s]
           \<and> s_title s = patched (p_title p) (s_title (m_stories mst ! idx))
           \<and> s_body s = patched (p_body p) (s_body (m_stories mst ! idx))
           \<and> s_genre s = patched (p_genre p) (s_genre (m_stories mst ! idx))
           \<and> s_likes s = s_likes (m_stories mst ! idx)
           \<and> s_id s = i
           \<and> s_authorId s = s_authorId (m_stories mst ! idx)
           \<and> s_createdAt s = s_createdAt (m_stories mst ! idx)"
      using idx hit
      by (simp add: res mem_apply_patch_fields)
  qed
  show ?thesis
    by (rule conjI [OF a conjI [OF b conjI [OF c d]]])
qed

theorem updateStory_applies_patch_witness:
  "''s1'' \<in> s_id ` set (stories (seed_state ''t0''))
   \<and> (\<exists>out st'. updateStory ''s1'' likes_patch (seed_state ''t0'') = (Inr out, st')
          \<and> s_likes (so_story out) = JNum 10 \<and> s_id (so_story out) = ''s1'')
   \<and> ''zz'' \<notin> s_id ` set (stories (seed_state ''t0''))
   \<and> updateStory ''zz'' likes_patch (seed_state ''t0'') = (Inl NotFound, seed_state ''t0'')
   \<and> ''s1'' \<in> s_id ` set (m_stories (mem_init ''t0''))
   \<and> (\<exists>s mst'. mem_updateStory ''s1'' likes_patch (mem_init ''t0'') = (Inr s, mst')
          \<and> s_id s = ''s1'')
   \<and> ''zz'' \<notin> s_id ` set (m_stories (mem_init ''t0''))
   \<and> mem_updateStory ''zz'' likes_patch (mem_init ''t0'') = (Inl NotFound, mem_init ''t0'')"
proof -
  have ids: "s_id ` set (stories (seed_state ''t0'')) = {''s1''}"
    "s_id ` set (m_stories (mem_init ''t0'')) = {''s1''}"
    by (simp_all add: seed_state_def mem_init_def seed_def)
  have p: "patched (p_likes likes_patch) v = JNum 10" for v
    by (simp add: patched_def likes_patch_def)
  note present = updateStory_applies_patch
    [of "''s1''" "seed_state ''t0''" likes_patch "mem_init ''t0''", unfolded ids p]
  note absent = updateStory_applies_patch
    [of "''zz''" "seed_state ''t0''" likes_patch "mem_init ''t0''", unfolded ids p]
  from present have
    "\<exists>out st'. updateStory ''s1'' likes_patch (seed_state ''t0'') = (Inr out, st')
        \<and> s_likes (so_story out) = JNum 10 \<and> s_id (so_story out) = ''s1''"
    by (elim conjE) auto
  moreover from present have
    "\<exists>s mst'. mem_updateStory ''s1'' likes_patch (mem_init ''t0'') = (Inr s, mst')
        \<and> s_id s = ''s1''"
    by (elim conjE) auto
  moreover from absent have
    "updateStory ''zz'' likes_patch (seed_state ''t0'') = (Inl NotFound, seed_state ''t0'')"
    "mem_updateStory ''zz'' likes_patch (mem_init ''t0'') = (Inl NotFound, mem_init ''t0'')"
    by simp_all
  ultimately show ?thesis
    unfolding ids by simp
qed

text \<open>
  Claim C6 as stated fails in \<^verbatim>\<open>src/server.js\<close>: a patch that carries
  \<^verbatim>\<open>likes: 10\<close> succeeds on the seed story and leaves its likes at 3.
\<close>

theorem mem_updateStory_likes_counterexample:
  "p_likes likes_patch = Some (JNum 10)
   \<and> map s_likes (m_stories (mem_init ''t0'')) = [JNum 3]
   \<and> fst (mem_updateStory ''s1'' likes_patch (mem_init ''t0'')) =
       Inr \<lparr>s_id = ''s1'', s_title = JStr ''A Moonlit Night'',
            s_body = JStr ''Once upon a moonlit night...'', s_authorId = JStr ''u1'',
            s_genre = JStr ''Fantasy'', s_likes = JNum 3, s_createdAt = ''t0''\<rparr>
   \<and> map s_likes (m_stories (snd (mem_updateStory ''s1'' likes_patch (mem_init ''t0'')))) =
       [JNum 3]"
  by code_simp

subsection \<open>Likes\<close>

lemma nonneg_plus_one: "nonneg_int v \<Longrightarrow> nonneg_int (plus_one v)"
  by (cases v) auto

lemma likes_ok_createStory: "likes_ok st \<Longrightarrow> likes_ok (snd (createStory inp uuid now st))"
  by (auto simp: createStory_def likes_ok_def saveDB_def Let_def split: option.splits)

lemma likes_ok_updateStory:
  assumes "likes_ok st" and "likes_patch_ok (UpdateStory i p)"
  shows "likes_ok (snd (updateStory i p st))"
proof (cases "findIndex (\<lambda>s. s_id s = i) (stories st)")
  case None
  with assms show ?thesis by (simp add: updateStory_def)
next
  case (Some idx)
  then have lt: "idx < length (stories st)" using findIndex_Some by blast
  with assms(1) have old: "nonneg_int (s_likes (stories st ! idx))"
    unfolding likes_ok_def by (rule list_all_nth)
  from assms(2) old have "nonneg_int (s_likes (apply_patch p (stories st ! idx)))"
    by (simp add: apply_patch_fields patched_def split: option.splits)
  with assms(1) have "list_all (\<lambda>s. nonneg_int (s_likes s))
      ((stories st)[idx := apply_patch p (stories st ! idx)])"
    unfolding likes_ok_def by (rule list_all_update)
  then show ?thesis
    by (simp add: updateStory_def Some Let_def saveDB_def likes_ok_def)
qed

lemma likes_ok_likeStory:
  assumes "likes_ok st"
  shows "likes_ok (snd (likeStory i st))"
proof (cases "findIndex (\<lambda>s. s_id s = i) (stories st)")
  case None
  with assms show ?thesis by (simp add: likeStory_def)
next
  case (Some idx)
  then have lt: "idx < length (stories st)" using findIndex_Some by blast
  with assms have "nonneg_int (s_likes (stories st ! idx))"
    unfolding likes_ok_def by (rule list_all_nth)
  then have "nonneg_int (s_likes ((stories st ! idx)\<lparr>s_likes := plus_one (s_likes (stories st ! idx))\<rparr>))"
    by (simp add: nonneg_plus_one)
  with assms have "list_all (\<lambda>s. nonneg_int (s_likes s))
      ((stories st)[idx := (stories st ! idx)\<lparr>s_likes := plus_one (s_likes (stories st ! idx))\<rparr>])"
    unfolding likes_ok_def by (rule list_all_update)
  then show ?thesis
    by (simp add: likeStory_def Some Let_def saveDB_def likes_ok_def)
qed

lemma likes_ok_deleteStory: "likes_ok st \<Longrightarrow> likes_ok (snd (deleteStory i st))"
  by (auto simp: deleteStory_def likes_ok_def saveDB_def Let_def list_all_iff)

lemma stories_createComment: "stories (snd (createComment i inp uuid now st)) = stories st"
  by (auto simp: createComment_def saveDB_def Let_def split: option.splits)

lemma stories_deleteComment: "stories (snd (deleteComment i st)) = stories st"
  by (simp add: deleteComment_def saveDB_def Let_def)

lemma stories_recordActivity: "stories (snd (recordActivity inp now st)) = stories st"
  by (auto simp: recordActivity_def Let_def split: option.splits)

lemma stories_createUser: "stories (snd (createUser inp uuid st)) = stories st"
  by (auto simp: createUser_def saveDB_def Let_def split: option.splits)

lemma handle_likes_ok:
  "likes_ok st \<Longrightarrow> likes_patch_ok r \<Longrightarrow> likes_ok (snd (handle r st))"
proof (cases r)
  case (UpdateStory i p)
  assume "likes_ok st" "likes_patch_ok r"
  then show ?thesis
    using likes_ok_updateStory [of st i p] by (simp add: UpdateStory reply_with_def)
qed (simp_all add: reply_with_def likes_ok_createStory likes_ok_likeStory
      likes_ok_deleteStory,
    simp_all add: likes_ok_def stories_createComment stories_deleteComment
      stories_recordActivity stories_createUser)

text \<open>
  Claim C7, as the code has it.  The likes of the seed story are a non-negative
  integer, and from every state in which the likes of every story are a non-negative
  integer, every sequence of requests whose update patches carry no \<^verbatim>\<open>likes\<close> or a
  non-negative integer leads to such a state again.
\<close>

theorem likes_nonneg_invariant:
  "likes_ok (seed_state now)
   \<and> (likes_ok st \<and> list_all likes_patch_ok rs \<longrightarrow> likes_ok (run rs st))"
proof -
  have "likes_ok st \<Longrightarrow> list_all likes_patch_ok rs \<Longrightarrow> likes_ok (run rs st)"
  proof (induction rs arbitrary: st)
    case Nil
    then show ?case by simp
  next
    case (Cons r rs)
    from Cons.prems have "likes_ok (snd (handle r st))"
      by (simp add: handle_likes_ok)
    with Cons show ?case by simp
  qed
  moreover have "likes_ok (seed_state now)"
    by (simp add: likes_ok_def seed_state_def seed_def)
  ultimately show ?thesis by blast
qed

theorem likes_nonneg_invariant_witness:
  "likes_ok (seed_state ''t0'')
   \<and> list_all likes_patch_ok [LikeStory ''s1'', UpdateStory ''s1'' likes_patch, LikeStory ''s1'']
   \<and> likes_ok (run [LikeStory ''s1'', UpdateStory ''s1'' likes_patch, LikeStory ''s1''] (seed_state ''t0''))
   \<and> map s_likes (stories (run [LikeStory ''s1'', UpdateStory ''s1'' likes_patch, LikeStory ''s1''] (seed_state ''t0''))) = [JNum 11]"
proof -
  have ok: "list_all likes_patch_ok [LikeStory ''s1'', UpdateStory ''s1'' likes_patch, LikeStory ''s1'']"
    by (simp add: likes_patch_def)
  have v: "map s_likes (stories (run [LikeStory ''s1'', UpdateStory ''s1'' likes_patch, LikeStory ''s1''] (seed_state ''t0''))) = [JNum 11]"
    by code_simp
  from likes_nonneg_invariant [of "''t0''" "seed_state ''t0''" "[LikeStory ''s1'', UpdateStory ''s1'' likes_patch, LikeStory ''s1'']"] ok v
  show ?thesis by blast
qed

text \<open>
  Claim C7 as stated fails: \<^verbatim>\<open>PUT /api/stories/s1\<close> with \<^verbatim>\<open>likes: -1\<close> on the seed
  state stores \<open>-1\<close>.
\<close>

theorem likes_negative_counterexample:
  "likes_ok (seed_state ''t0'')
   \<and> map s_likes (stories (run [UpdateStory ''s1'' negative_patch] (seed_state ''t0''))) = [JNum (- 1)]
   \<and> \<not> likes_ok (run [UpdateStory ''s1'' negative_patch] (seed_state ''t0''))"
  by code_simp

subsection \<open>Rejected requests\<close>

lemma no_orphans_iff:
  "no_orphans st \<longleftrightarrow> c_storyId ` set (comments st) \<subseteq> s_id ` set (stories st)"
proof -
  have e: "(\<exists>s\<in>set (stories st). s_id s = c_storyId c) \<longleftrightarrow> c_storyId c \<in> s_id ` set (stories st)"
    for c
    by (metis image_iff)
  show ?thesis
    by (simp add: no_orphans_def list_all_iff list_ex_iff e image_subset_iff)
qed

lemma apply_patch_id: "s_id (apply_patch p s) = s_id s"
  by (simp add: apply_patch_def Let_def split: option.splits)

lemma no_orphans_createStory:
  "no_orphans st \<Longrightarrow> no_orphans (snd (createStory inp uuid now st))"
  by (auto simp: no_orphans_iff createStory_def saveDB_def Let_def split: option.splits)

lemma no_orphans_updateStory:
  assumes "no_orphans st"
  shows "no_orphans (snd (updateStory i p st))"
proof (cases "findIndex (\<lambda>s. s_id s = i) (stories st)")
  case None
  with assms show ?thesis by (simp add: updateStory_def)
next
  case (Some idx)
  then have "idx < length (stories st)" using findIndex_Some by blast
  then have "s_id ` set ((stories st)[idx := apply_patch p (stories st ! idx)]) = s_id ` set (stories st)"
    by (rule ids_update) (simp add: apply_patch_id)
  with assms show ?thesis
    by (simp add: no_orphans_iff updateStory_def Some Let_def saveDB_def)
qed

lemma no_orphans_likeStory:
  assumes "no_orphans st"
  shows "no_orphans (snd (likeStory i st))"
proof (cases "findIndex (\<lambda>s. s_id s = i) (stories st)")
  case None
  with assms show ?thesis by (simp add: likeStory_def)
next
  case (Some idx)
  then have "idx < length (stories st)" using findIndex_Some by blast
  then have "s_id ` set ((stories st)[idx := (stories st ! idx)\<lparr>s_likes := plus_one (s_likes (stories st ! idx))\<rparr>]) = s_id ` set (stories st)"
    by (rule ids_update) simp
  with assms show ?thesis
    by (simp add: no_orphans_iff likeStory_def Some Let_def saveDB_def)
qed

lemma no_orphans_deleteStory:
  "no_orphans st \<Longrightarrow> no_orphans (snd (deleteStory i st))"
  by (auto simp: no_orphans_iff deleteStory_def saveDB_def Let_def)

lemma no_orphans_createComment:
  "no_orphans st \<Longrightarrow> no_orphans (snd (createComment i inp uuid now st))"
  by (auto simp: no_orphans_iff createComment_def saveDB_def Let_def
      split: option.splits dest: find_Some_iff [THEN iffD1])

lemma no_orphans_deleteComment:
  "no_orphans st \<Longrightarrow> no_orphans (snd (deleteComment i st))"
  by (auto simp: no_orphans_iff deleteComment_def saveDB_def Let_def)

lemma no_orphans_recordActivity:
  "no_orphans st \<Longrightarrow> no_orphans (snd (recordActivity inp now st))"
  by (auto simp: no_orphans_iff recordActivity_def Let_def split: option.splits)

lemma no_orphans_createUser:
  "no_orphans st \<Longrightarrow> no_orphans (snd (createUser inp uuid st))"
  by (auto simp: no_orphans_iff createUser_def saveDB_def Let_def split: option.splits)

lemma handle_no_orphans: "no_orphans st \<Longrightarrow> no_orphans (snd (handle r st))"
  by (cases r)
    (simp_all add: reply_with_def no_orphans_createStory no_orphans_updateStory
      no_orphans_deleteStory no_orphans_likeStory no_orphans_createComment
      no_orphans_deleteComment no_orphans_recordActivity no_orphans_createUser)

lemma run_no_orphans: "no_orphans st \<Longrightarrow> no_orphans (run rs st)"
  by (induction rs arbitrary: st) (simp_all add: handle_no_orphans)

lemma seed_no_orphans: "no_orphans (seed_state now)"
  by (simp add: no_orphans_def seed_state_def seed_def)

lemma deleteStory_rejected:
  assumes "no_orphans st" and "rejected (fst (deleteStory i st))"
  shows "snd (deleteStory i st) = st"
proof -
  from assms(2) have len: "length (filter (\<lambda>s. s_id s \<noteq> i) (stories st)) = length (stories st)"
    by (auto simp: deleteStory_def Let_def split: if_splits)
  then have ss: "filter (\<lambda>s. s_id s \<noteq> i) (stories st) = stories st"
    by (rule filter_same)
  from len have absent: "\<forall>s\<in>set (stories st). s_id s \<noteq> i"
    by (simp add: length_filter_same)
  from assms(1) absent have "\<forall>c\<in>set (comments st). c_storyId c \<noteq> i"
    by (auto simp: no_orphans_def list_all_iff list_ex_iff)
  then have cs: "filter (\<lambda>c. c_storyId c \<noteq> i) (comments st) = comments st"
    by (simp add: filter_id_conv)
  show ?thesis
    by (simp add: deleteStory_def Let_def ss cs)
qed

lemma deleteComment_rejected:
  "rejected (fst (deleteComment i st)) \<Longrightarrow> snd (deleteComment i st) = st"
  by (auto simp: deleteComment_def Let_def filter_same split: if_splits)

lemma createStory_rejected:
  "rejected (fst (createStory inp uuid now st)) \<Longrightarrow> snd (createStory inp uuid now st) = st"
  by (auto simp: createStory_def Let_def split: option.splits if_splits)

lemma updateStory_rejected:
  "rejected (fst (updateStory i p st)) \<Longrightarrow> snd (updateStory i p st) = st"
  by (auto simp: updateStory_def Let_def split: option.splits)

lemma likeStory_rejected:
  "rejected (fst (likeStory i st)) \<Longrightarrow> snd (likeStory i st) = st"
  by (auto simp: likeStory_def Let_def split: option.splits)

lemma createComment_rejected:
  "rejected (fst (createComment i inp uuid now st))
   \<Longrightarrow> snd (createComment i inp uuid now st) = st"
  by (auto simp: createComment_def Let_def split: option.splits if_splits)

lemma recordActivity_rejected:
  "rejected (fst (recordActivity inp now st)) \<Longrightarrow> snd (recordActivity inp now st) = st"
  by (auto simp: recordActivity_def Let_def split: option.splits if_splits)

lemma createUser_rejected:
  "rejected (fst (createUser inp uuid st)) \<Longrightarrow> snd (createUser inp uuid st) = st"
  by (auto simp: createUser_def Let_def split: option.splits if_splits)

lemma rejected_map_sum: "rejected (map_sum (\<lambda>e. e) f r) = rejected r"
  by (cases r rule: rejected.cases) simp_all

text \<open>
  A rejected request leaves the state as it was, in every state in which no comment is
  an orphan, and in the in-memory server in every state.
\<close>

lemma rejected_keeps_state:
  assumes "no_orphans st" and "rejected (fst (handle r st))"
  shows "snd (handle r st) = st"
  using assms
  by (cases r)
    (simp_all add: reply_with_def rejected_map_sum createStory_rejected updateStory_rejected
      deleteStory_rejected likeStory_rejected createComment_rejected deleteComment_rejected
      recordActivity_rejected createUser_rejected)

lemma mem_rejected_keeps_state:
  assumes "rejected (fst (mem_handle r st))"
  shows "snd (mem_handle r st) = st"
  using assms
  by (cases r)
    (auto simp: mem_reply_with_def rejected_map_sum mem_createStory_def mem_updateStory_def
      mem_deleteStory_def mem_createComment_def mem_deleteComment_def mem_createUser_def
      Let_def filter_same split: option.splits if_splits)

text \<open>
  Claim C5 at its failing input.  The file-backed server started on a \<^verbatim>\<open>data.json\<close>
  that holds a comment on the story id \<^verbatim>\<open>gone\<close> and no such story:
  \<^verbatim>\<open>DELETE /api/stories/gone\<close> answers NotFound, and the comment has left the
  collection while the file still holds it.
\<close>

theorem deleteStory_orphan_evaluation:
  "boot ''t1'' (Some orphan_doc) None = Some orphan_state
   \<and> map s_id (stories orphan_state) = [''s1'']
   \<and> comments orphan_state = [orphan_comment]
   \<and> deleteStory ''gone'' orphan_state = (Inl NotFound, orphan_state\<lparr>comments := []\<rparr>)
   \<and> dataFile (snd (deleteStory ''gone'' orphan_state)) = Some orphan_doc"
  by code_simp

subsection \<open>Recommendation on an unreadable log\<close>

lemma recommend_no_log: "activityFile st = None \<Longrightarrow> recommend u st = Inr []"
  by (simp add: recommend_def getUserHistory_def)

text \<open>
  Claim C8 at its failing input.  With a \<^verbatim>\<open>userActivity.json\<close> that exists and is
  empty, the text splits into one empty line, \<^verbatim>\<open>JSON.parse\<close> throws on it, and
  \<^verbatim>\<open>GET /api/recommend/u1\<close> is answered by the global error handler with 500.
\<close>

theorem recommend_empty_log_evaluation:
  "activityFile empty_log_state = Some []
   \<and> getUserHistory ''u1'' empty_log_state = Inl SyntaxError
   \<and> recommend ''u1'' empty_log_state = Inl InternalError"
  by code_simp

end
